theory Spec2Isabelle
  imports Complex_Main "HOL-Library.Multiset"
begin

section \<open>Baseline: cross-source signal aggregation and divisiveness ranking\<close>

text \<open>
  A shallow embedding of the scoring, matching, merging and ranking code of the Baseline
  backend: \<^verbatim>\<open>scoreDivisiveness\<close> of the Reddit scraper, the statistics callback of
  \<^verbatim>\<open>fetchTrendingVideos\<close> of the YouTube scraper, and \<^verbatim>\<open>normalizeTitle\<close>,
  \<^verbatim>\<open>findBestMatch\<close> and \<^verbatim>\<open>mergeSignals\<close> of the topic selector. The repository holds
  two topic selectors that differ only in the composite score of \<^verbatim>\<open>mergeSignals\<close>; both
  are embedded.

  JavaScript numbers are modelled as real numbers: in the scorers and in the merger
  arithmetic is exact, there is no rounding and no infinity. The composite score is given
  twice: as the exact weighted sum, and as the double that the engine computes by rounding
  after each operation, which is the score that the ranking is sorted by. Where the source
  can produce \<^verbatim>\<open>NaN\<close> from text (\<^verbatim>\<open>parseInt\<close>) the model returns \<open>None\<close>. A property that
  is \<^verbatim>\<open>undefined\<close> on an object is \<open>None\<close>. Strings are lists of 8-bit characters.
\<close>

subsection \<open>Characters and strings\<close>

text \<open>The characters that \<^verbatim>\<open>\s\<close> of a regular expression and \<^verbatim>\<open>trim\<close> treat as white space
  (tab, line feed, vertical tab, form feed, carriage return, space, no-break space).\<close>

definition isSpace :: "char \<Rightarrow> bool" where
  "isSpace c = (c \<in> set [CHR 0x09, CHR 0x0A, CHR 0x0B, CHR 0x0C, CHR 0x0D, CHR '' '', CHR 0xA0])"

definition isDigit :: "char \<Rightarrow> bool" where
  "isDigit c = (c \<in> set ''0123456789'')"

definition isLowerAlnum :: "char \<Rightarrow> bool" where
  "isLowerAlnum c = (c \<in> set ''abcdefghijklmnopqrstuvwxyz0123456789'')"

text \<open>\<^verbatim>\<open>toLowerCase\<close> on the letters A to Z. Every other character is left as it is; the
  characters outside a-z, 0-9 and white space are deleted by the next step of
  \<^verbatim>\<open>normalizeTitle\<close> in either case.\<close>

definition lowerChar :: "char \<Rightarrow> char" where
  "lowerChar c =
     (case map_of (zip ''ABCDEFGHIJKLMNOPQRSTUVWXYZ'' ''abcdefghijklmnopqrstuvwxyz'') c of
        Some l \<Rightarrow> l
      | None \<Rightarrow> c)"

definition toLowerCase :: "string \<Rightarrow> string" where
  "toLowerCase s = map lowerChar s"

definition trim :: "string \<Rightarrow> string" where
  "trim s = rev (dropWhile isSpace (rev (dropWhile isSpace s)))"

text \<open>\<^verbatim>\<open>title.toLowerCase().replace(/[^a-z0-9\s]/g, '').trim()\<close>\<close>

definition normalizeTitle :: "string \<Rightarrow> string" where
  "normalizeTitle t = trim (filter (\<lambda>c. isLowerAlnum c \<or> isSpace c) (toLowerCase t))"

text \<open>\<^verbatim>\<open>s.split(' ')\<close>: the pieces between single spaces, empty pieces included; \<open>w\<close> is the
  piece being read, reversed.\<close>

fun splitFrom :: "string \<Rightarrow> string \<Rightarrow> string list" where
  "splitFrom w [] = [rev w]"
| "splitFrom w (c # cs) =
     (if c = CHR '' '' then rev w # splitFrom [] cs else splitFrom (c # w) cs)"

definition split :: "string \<Rightarrow> string list" where
  "split s = splitFrom [] s"

text \<open>\<^verbatim>\<open>new Set(key.split(' ').filter(w => w.length > 3))\<close>: a set is a list without
  repetitions; the code only reads its size and its membership test.\<close>

definition longWords :: "string \<Rightarrow> string list" where
  "longWords key = remdups (filter (\<lambda>w. length w > 3) (split key))"

subsection \<open>Per-source scorers\<close>

text \<open>The fields of a Reddit post that \<^verbatim>\<open>scoreDivisiveness\<close> reads. The destructuring
  \<^verbatim>\<open>const { upvote_ratio = 0.5, num_comments = 0, score = 0 } = post\<close> gives a missing field
  its default.\<close>

record post =
  upvote_ratio :: "real option"
  num_comments :: "real option"
  score :: "real option"

definition ratioDivisiveness :: "real \<Rightarrow> real" where
  "ratioDivisiveness r = 1 - \<bar>r - 0.5\<bar> * 2"

text \<open>\<^verbatim>\<open>Math.log10\<close> is the real logarithm for a positive argument; for
  \<open>n + 1 \<le> 0\<close> the source gives \<^verbatim>\<open>-Infinity\<close> or \<^verbatim>\<open>NaN\<close>, which the model does not
  represent.\<close>

definition engagementWeight :: "real \<Rightarrow> real" where
  "engagementWeight n = min (log 10 (n + 1) / 4) 1"

definition scoreWeight :: "real \<Rightarrow> real" where
  "scoreWeight s = (if s > 100 then 1 else s / 100)"

definition scoreDivisiveness :: "post \<Rightarrow> real" where
  "scoreDivisiveness p =
     (let r = (case upvote_ratio p of None \<Rightarrow> 0.5 | Some v \<Rightarrow> v);
          n = (case num_comments p of None \<Rightarrow> 0 | Some v \<Rightarrow> v);
          s = (case post.score p of None \<Rightarrow> 0 | Some v \<Rightarrow> v)
      in ratioDivisiveness r * 0.6 + engagementWeight n * 0.3 + scoreWeight s * 0.1)"

text \<open>\<^verbatim>\<open>video.statistics\<close> of the YouTube API: counts arrive as decimal text.\<close>

record statistics =
  viewCount :: "string option"
  commentCount :: "string option"
  likeCount :: "string option"

fun digitsValue :: "nat \<Rightarrow> string \<Rightarrow> nat" where
  "digitsValue acc [] = acc"
| "digitsValue acc (c # cs) = digitsValue (10 * acc + (of_char c - of_char CHR ''0'')) cs"

text \<open>\<^verbatim>\<open>parseInt(s, 10)\<close>: leading white space, an optional sign, then the longest run of
  digits; \<open>None\<close> is \<^verbatim>\<open>NaN\<close> (no digit).\<close>

definition parseInt :: "string \<Rightarrow> int option" where
  "parseInt s =
     (let t = dropWhile isSpace s;
          neg = (t \<noteq> [] \<and> hd t = CHR ''-'');
          u = (if t \<noteq> [] \<and> (hd t = CHR ''-'' \<or> hd t = CHR ''+'') then tl t else t);
          ds = takeWhile isDigit u
      in if ds = [] then None
         else Some (if neg then - int (digitsValue 0 ds) else int (digitsValue 0 ds)))"

text \<open>\<^verbatim>\<open>x || '0'\<close>: a missing or empty text is replaced by \<^verbatim>\<open>'0'\<close>.\<close>

definition orZero :: "string option \<Rightarrow> string" where
  "orZero x = (case x of None \<Rightarrow> ''0'' | Some s \<Rightarrow> if s = [] then ''0'' else s)"

text \<open>\<^verbatim>\<open>viewCount > 0 ? commentCount / viewCount : 0\<close>. A comparison with \<^verbatim>\<open>NaN\<close> is
  false; a quotient with a \<^verbatim>\<open>NaN\<close> numerator is \<^verbatim>\<open>NaN\<close>.\<close>

definition commentDensity :: "int option \<Rightarrow> int option \<Rightarrow> real option" where
  "commentDensity vc cc =
     (case vc of
        None \<Rightarrow> Some 0
      | Some v \<Rightarrow>
          if v > 0 then (case cc of None \<Rightarrow> None | Some c \<Rightarrow> Some (real_of_int c / real_of_int v))
          else Some 0)"

text \<open>The \<^verbatim>\<open>divisiveness_score\<close> that the callback of \<^verbatim>\<open>fetchTrendingVideos\<close> gives a
  video: \<^verbatim>\<open>Math.min(commentDensity * 1000, 1)\<close>.\<close>

definition videoDivisiveness :: "statistics \<Rightarrow> real option" where
  "videoDivisiveness stats =
     (let vc = parseInt (orZero (viewCount stats));
          cc = parseInt (orZero (commentCount stats))
      in map_option (\<lambda>d. min (d * 1000) 1) (commentDensity vc cc))"

subsection \<open>The candidate pool\<close>

text \<open>The candidates handed to \<^verbatim>\<open>mergeSignals\<close>, with the fields it reads: Reddit
  clusters (\<open>title\<close>, \<open>divisiveness_score\<close>, \<open>total_comments\<close>, \<open>subreddits\<close>), Google trends
  (\<open>title\<close>, \<open>score\<close>) and YouTube videos (\<open>title\<close>, \<open>divisiveness_score\<close>).\<close>

record titled =
  title :: string

record scored_candidate = titled +
  divisiveness_score :: real

record reddit_candidate = scored_candidate +
  total_comments :: real
  subreddits :: "string list"

record google_trend = titled +
  score :: real

text \<open>The objects stored in the pool.\<close>

record merged = titled +
  reddit_divisiveness :: real
  reddit_comments :: real
  reddit_subreddits :: "string list"
  google_score :: real
  youtube_divisiveness :: real
  sources :: "string list"

text \<open>\<^verbatim>\<open>{ ...c, composite_score }\<close>\<close>

record ranked = merged +
  composite_score :: real

text \<open>A \<^verbatim>\<open>Map\<close> iterates in insertion order: it is a list of entries with distinct keys.
  \<^verbatim>\<open>set\<close> replaces the value of a key that is present, in place, and appends a new key
  at the end.\<close>

type_synonym 'v js_map = "(string \<times> 'v) list"

fun Map_set :: "string \<Rightarrow> 'v \<Rightarrow> 'v js_map \<Rightarrow> 'v js_map" where
  "Map_set k v [] = [(k, v)]"
| "Map_set k v ((k', v') # m) =
     (if k' = k then (k, v) # m else (k', v') # Map_set k v m)"

text \<open>A write through a reference to the object stored under key \<open>k\<close>.\<close>

fun Map_modify :: "string \<Rightarrow> ('v \<Rightarrow> 'v) \<Rightarrow> 'v js_map \<Rightarrow> 'v js_map" where
  "Map_modify k f [] = []"
| "Map_modify k f ((k', v') # m) =
     (if k' = k then (k', f v') # m else (k', v') # Map_modify k f m)"

definition Map_values :: "'v js_map \<Rightarrow> 'v list" where
  "Map_values m = map snd m"

subsection \<open>The fuzzy matcher\<close>

text \<open>\<^verbatim>\<open>shared / Math.max(keyWords.size, existingWords.size, 1)\<close>, where \<open>shared\<close> counts the
  words of \<open>keyWords\<close> that \<open>existingWords\<close> has.\<close>

definition overlap :: "string list \<Rightarrow> string list \<Rightarrow> real" where
  "overlap keyWords existingWords =
     real (length (filter (\<lambda>w. w \<in> set existingWords) keyWords))
       / real (max (max (length keyWords) (length existingWords)) 1)"

text \<open>The loop of \<^verbatim>\<open>findBestMatch\<close> over the entries, with its two variables
  \<open>bestMatch\<close> and \<open>bestOverlap\<close>. The reference it keeps is the entry: the key names the
  stored object.\<close>

fun bestMatchLoop ::
  "string list \<Rightarrow> 'v js_map \<Rightarrow> (string \<times> 'v) option \<times> real \<Rightarrow> (string \<times> 'v) option \<times> real"
where
  "bestMatchLoop keyWords [] st = st"
| "bestMatchLoop keyWords ((existingKey, val) # m) (bestMatch, bestOverlap) =
     (let ov = overlap keyWords (longWords existingKey)
      in if ov > 0.4 \<and> ov > bestOverlap
         then bestMatchLoop keyWords m (Some (existingKey, val), ov)
         else bestMatchLoop keyWords m (bestMatch, bestOverlap))"

definition findBestMatch :: "string \<Rightarrow> 'v js_map \<Rightarrow> (string \<times> 'v) option" where
  "findBestMatch key m = fst (bestMatchLoop (longWords key) m (None, 0))"

subsection \<open>The signal merger\<close>

text \<open>The body of the first loop of \<^verbatim>\<open>mergeSignals\<close>: a Reddit candidate is stored under
  its key without a search.\<close>

definition addReddit :: "merged js_map \<Rightarrow> reddit_candidate \<Rightarrow> merged js_map" where
  "addReddit candidates r =
     Map_set (normalizeTitle (title r))
       \<lparr>title = title r, reddit_divisiveness = divisiveness_score r,
        reddit_comments = total_comments r, reddit_subreddits = subreddits r,
        google_score = 0, youtube_divisiveness = 0, sources = [''reddit'']\<rparr>
       candidates"

text \<open>The body of the second loop.\<close>

definition mergeGoogle :: "merged js_map \<Rightarrow> google_trend \<Rightarrow> merged js_map" where
  "mergeGoogle candidates g =
     (let key = normalizeTitle (title g)
      in case findBestMatch key candidates of
           Some (k, match) \<Rightarrow>
             Map_modify k
               (\<lambda>c. c\<lparr>google_score := google_trend.score g / 100,
                       sources := sources c @ [''google_trends'']\<rparr>)
               candidates
         | None \<Rightarrow>
             Map_set key
               \<lparr>title = title g, reddit_divisiveness = 0, reddit_comments = 0,
                reddit_subreddits = [], google_score = google_trend.score g / 100,
                youtube_divisiveness = 0, sources = [''google_trends'']\<rparr>
               candidates)"

text \<open>The body of the third loop.\<close>

definition mergeYoutube :: "merged js_map \<Rightarrow> scored_candidate \<Rightarrow> merged js_map" where
  "mergeYoutube candidates y =
     (let key = normalizeTitle (title y)
      in case findBestMatch key candidates of
           Some (k, match) \<Rightarrow>
             Map_modify k
               (\<lambda>c. c\<lparr>youtube_divisiveness := divisiveness_score y,
                       sources := sources c @ [''youtube'']\<rparr>)
               candidates
         | None \<Rightarrow>
             Map_set key
               \<lparr>title = title y, reddit_divisiveness = 0, reddit_comments = 0,
                reddit_subreddits = [], google_score = 0,
                youtube_divisiveness = divisiveness_score y, sources = [''youtube'']\<rparr>
               candidates)"

text \<open>The pool after the three loops.\<close>

definition mergePool ::
  "reddit_candidate list \<Rightarrow> google_trend list \<Rightarrow> scored_candidate list \<Rightarrow> merged js_map"
where
  "mergePool redditCandidates googleTrends youtubeCandidates =
     foldl mergeYoutube (foldl mergeGoogle (foldl addReddit [] redditCandidates) googleTrends)
       youtubeCandidates"

text \<open>The number of source entries that the pool holds, over all its candidates: every
  fold of a candidate into the pool should add one.\<close>

definition sourceTags :: "merged js_map \<Rightarrow> nat" where
  "sourceTags m = sum_list (map (\<lambda>e. length (sources (snd e))) m)"

subsection \<open>The composite ranker\<close>

definition multiPlatform :: "'a merged_scheme \<Rightarrow> real" where
  "multiPlatform c = min (real (length (sources c)) / 3) 1"

text \<open>The divisiveness weighting (first topic selector).\<close>

definition divisivenessComposite :: "'a merged_scheme \<Rightarrow> real" where
  "divisivenessComposite c =
     reddit_divisiveness c * 0.45 + youtube_divisiveness c * 0.25
       + google_score c * 0.15 + multiPlatform c * 0.15"

text \<open>The mainstream weighting (second topic selector): comment volume first, no video
  term.\<close>

definition engagementScore :: "'a merged_scheme \<Rightarrow> real" where
  "engagementScore c = min (reddit_comments c / 5000) 1"

definition mainstreamComposite :: "'a merged_scheme \<Rightarrow> real" where
  "mainstreamComposite c =
     engagementScore c * 0.35 + google_score c * 0.25
       + multiPlatform c * 0.20 + reddit_divisiveness c * 0.20"

text \<open>\<^verbatim>\<open>{ ...c, composite_score: f(c) }\<close>\<close>

definition withComposite :: "(merged \<Rightarrow> real) \<Rightarrow> merged \<Rightarrow> ranked" where
  "withComposite f c = merged.extend c (ranked.fields (f c))"

text \<open>\<^verbatim>\<open>Array.from(candidates.values()).map(c => ...)\<close>\<close>

definition scoredValues :: "(merged \<Rightarrow> real) \<Rightarrow> merged js_map \<Rightarrow> ranked list" where
  "scoredValues f candidates = map (withComposite f) (Map_values candidates)"

text \<open>\<^verbatim>\<open>scored.sort((a, b) => b.composite_score - a.composite_score).slice(0, 20)\<close>:
  \<^verbatim>\<open>Array.prototype.sort\<close> is stable, and so is the insertion sort \<^const>\<open>sort_key\<close>.\<close>

definition rankTop :: "ranked list \<Rightarrow> ranked list" where
  "rankTop scored = take 20 (sort_key (\<lambda>c. - composite_score c) scored)"

definition mergeSignals ::
  "reddit_candidate list \<Rightarrow> google_trend list \<Rightarrow> scored_candidate list \<Rightarrow> ranked list"
where
  "mergeSignals redditCandidates googleTrends youtubeCandidates =
     rankTop (scoredValues divisivenessComposite
       (mergePool redditCandidates googleTrends youtubeCandidates))"

definition mergeSignals_mainstream ::
  "reddit_candidate list \<Rightarrow> google_trend list \<Rightarrow> scored_candidate list \<Rightarrow> ranked list"
where
  "mergeSignals_mainstream redditCandidates googleTrends youtubeCandidates =
     rankTop (scoredValues mainstreamComposite
       (mergePool redditCandidates googleTrends youtubeCandidates))"

subsection \<open>Double-precision arithmetic\<close>

text \<open>The numbers of the engine are IEEE 754 doubles, and each arithmetic operation returns
  the double nearest to the exact result, a tie going to the even significand. The
  definitions above give the exact value of the two weighted sums; the definitions below
  give the value that the engine stores in \<open>composite_score\<close> and sorts by.

  \<open>halvings x\<close> counts the halvings that bring \<open>x \<ge> 1\<close> below 2, and \<open>doublings x\<close> the
  doublings that bring \<open>0 < x < 1\<close> up to 1: the binary exponent of a positive number.\<close>

function halvings :: "real \<Rightarrow> nat" where
  "halvings x = (if 2 \<le> x then Suc (halvings (x / 2)) else 0)"
  by pat_completeness auto
termination
proof (relation "measure (\<lambda>x. nat \<lceil>x\<rceil>)")
  show "wf (measure (\<lambda>x::real. nat \<lceil>x\<rceil>))" by simp
next
  fix x :: real
  assume "2 \<le> x"
  then have "x / 2 \<le> x - 1" by simp
  then have "\<lceil>x / 2\<rceil> \<le> \<lceil>x - 1\<rceil>" by (rule ceiling_mono)
  then have "\<lceil>x / 2\<rceil> < \<lceil>x\<rceil>" by simp
  moreover have "0 < \<lceil>x\<rceil>" using \<open>2 \<le> x\<close> by simp
  ultimately show "(x / 2, x) \<in> measure (\<lambda>x. nat \<lceil>x\<rceil>)" by simp
qed

function doublings :: "real \<Rightarrow> nat" where
  "doublings x = (if 0 < x \<and> x < 1 then Suc (doublings (2 * x)) else 0)"
  by pat_completeness auto
termination
proof (relation "measure (\<lambda>x. nat \<lceil>1 / x\<rceil>)")
  show "wf (measure (\<lambda>x::real. nat \<lceil>1 / x\<rceil>))" by simp
next
  fix x :: real
  assume a: "0 < x \<and> x < 1"
  define t where "t = 1 / x"
  have t: "1 < t" using a by (simp add: t_def)
  have half: "1 / (2 * x) = t / 2" by (simp add: t_def)
  have up: "t \<le> of_int \<lceil>t\<rceil>" by (rule le_of_int_ceiling)
  have "1 < \<lceil>t\<rceil>" using t by linarith
  then have two: "(2::real) \<le> of_int \<lceil>t\<rceil>" by linarith
  have "t / 2 \<le> of_int \<lceil>t\<rceil> - 1" using up two by linarith
  then have "t / 2 \<le> of_int (\<lceil>t\<rceil> - 1)" by simp
  then have "\<lceil>t / 2\<rceil> \<le> \<lceil>t\<rceil> - 1" by (simp only: ceiling_le_iff)
  moreover have "0 < \<lceil>t\<rceil>" using t by linarith
  ultimately have "nat \<lceil>t / 2\<rceil> < nat \<lceil>t\<rceil>" by linarith
  then show "(2 * x, x) \<in> measure (\<lambda>x. nat \<lceil>1 / x\<rceil>)"
    by (simp only: in_measure half t_def[symmetric])
qed

declare halvings.simps [simp del] doublings.simps [simp del]

definition binaryExponent :: "real \<Rightarrow> int" where
  "binaryExponent x = (if 1 \<le> x then int (halvings x) else - int (doublings x))"

text \<open>The nearest integer, a tie going to the even one.\<close>

definition roundHalfEven :: "real \<Rightarrow> int" where
  "roundHalfEven r =
     (let f = \<lfloor>r\<rfloor>; d = r - of_int f
      in if d < 1/2 then f else if 1/2 < d then f + 1 else if even f then f else f + 1)"

text \<open>\<open>x * 2\<^sup>k\<close>\<close>

definition scaleBinary :: "real \<Rightarrow> int \<Rightarrow> real" where
  "scaleBinary x k = (if 0 \<le> k then x * 2 ^ nat k else x / 2 ^ nat (- k))"

text \<open>The double nearest to \<open>x\<close>: a significand of 53 bits at the binary exponent of \<open>x\<close>, and
  at the exponent -1022 for a smaller \<open>x\<close>, where the doubles keep the spacing
  \<open>2\<^sup>-\<^sup>1\<^sup>0\<^sup>7\<^sup>4\<close> (gradual underflow). The engine replaces a result of magnitude
  \<open>2\<^sup>1\<^sup>0\<^sup>2\<^sup>4\<close> or more by \<^verbatim>\<open>Infinity\<close>; such results, and \<^verbatim>\<open>NaN\<close>, are outside of this
  model.\<close>

definition roundDouble :: "real \<Rightarrow> real" where
  "roundDouble x =
     (if x = 0 then 0
      else let e = max (binaryExponent \<bar>x\<bar>) (- 1022);
               n = roundHalfEven (scaleBinary \<bar>x\<bar> (52 - e))
           in sgn x * scaleBinary (of_int n) (e - 52))"

text \<open>\<^verbatim>\<open>a * b\<close>, \<^verbatim>\<open>a + b\<close> and \<^verbatim>\<open>a / b\<close> of the engine. An operand is read as the double
  nearest to it: the literal \<^verbatim>\<open>0.45\<close> denotes the double nearest to 45/100, and a field of
  a candidate holds a double, which is its own nearest double. A quotient that the merger
  stores (\<^verbatim>\<open>g.score / 100\<close>) is kept exact in the pool and rounded when it is read, which
  is the double that the engine stores.\<close>

definition fmul :: "real \<Rightarrow> real \<Rightarrow> real" where
  "fmul a b = roundDouble (roundDouble a * roundDouble b)"

definition fadd :: "real \<Rightarrow> real \<Rightarrow> real" where
  "fadd a b = roundDouble (roundDouble a + roundDouble b)"

definition fdiv :: "real \<Rightarrow> real \<Rightarrow> real" where
  "fdiv a b = roundDouble (roundDouble a / roundDouble b)"

subsection \<open>The composite ranker in double precision\<close>

text \<open>\<^verbatim>\<open>Math.min(c.sources.length / 3, 1)\<close>\<close>

definition multiPlatformDouble :: "'a merged_scheme \<Rightarrow> real" where
  "multiPlatformDouble c = min (fdiv (real (length (sources c))) 3) 1"

text \<open>The sum of the first topic selector; \<^verbatim>\<open>+\<close> associates to the left.\<close>

definition divisivenessDouble :: "'a merged_scheme \<Rightarrow> real" where
  "divisivenessDouble c =
     fadd (fadd (fadd (fmul (reddit_divisiveness c) 0.45)
                      (fmul (youtube_divisiveness c) 0.25))
                (fmul (google_score c) 0.15))
          (fmul (multiPlatformDouble c) 0.15)"

text \<open>\<^verbatim>\<open>Math.min(c.reddit_comments / 5000, 1)\<close>\<close>

definition engagementDouble :: "'a merged_scheme \<Rightarrow> real" where
  "engagementDouble c = min (fdiv (reddit_comments c) 5000) 1"

text \<open>The sum of the second topic selector.\<close>

definition mainstreamDouble :: "'a merged_scheme \<Rightarrow> real" where
  "mainstreamDouble c =
     fadd (fadd (fadd (fmul (engagementDouble c) 0.35)
                      (fmul (google_score c) 0.25))
                (fmul (multiPlatformDouble c) 0.20))
          (fmul (reddit_divisiveness c) 0.20)"

text \<open>The last two statements of \<^verbatim>\<open>mergeSignals\<close> on the pool that its three loops have
  built: the candidates with the score \<open>f\<close>, sorted and cut to 20. The comparator
  \<^verbatim>\<open>b.composite_score - a.composite_score\<close> is zero for equal scores and has the sign of
  the exact difference otherwise.\<close>

definition rankedCandidates :: "(merged \<Rightarrow> real) \<Rightarrow> merged js_map \<Rightarrow> ranked list" where
  "rankedCandidates f candidates = rankTop (scoredValues f candidates)"

subsection \<open>The caller of the ranker\<close>

text \<open>\<^verbatim>\<open>selectTopic\<close> of the first topic selector (the second has the same text around its
  own \<^verbatim>\<open>mergeSignals\<close>), with the database lookup
  \<^verbatim>\<open>topicExistsForDate(date)\<close> and the call of the language model as parameters (\<open>None\<close>:
  the call failed). It returns \<^verbatim>\<open>null\<close> when the date has a topic, and throws when
  \<^verbatim>\<open>mergeSignals\<close> returns no candidate.\<close>

datatype error = NoTopicCandidates | DecisionMakerFailed

definition selectTopic ::
  "bool \<Rightarrow> (ranked list \<Rightarrow> 's option) \<Rightarrow> reddit_candidate list \<Rightarrow> google_trend list
     \<Rightarrow> scored_candidate list \<Rightarrow> error + ('s \<times> ranked list) option"
where
  "selectTopic topicExistsForDate selectTopicWithAI redditCandidates googleTrends youtubeCandidates =
     (if topicExistsForDate then Inr None
      else let candidates = mergeSignals redditCandidates googleTrends youtubeCandidates
           in if length candidates = 0 then Inl NoTopicCandidates
              else (case selectTopicWithAI candidates of
                      None \<Rightarrow> Inl DecisionMakerFailed
                    | Some selected \<Rightarrow> Inr (Some (selected, candidates))))"

section \<open>Properties\<close>

subsection \<open>The discussion scorer\<close>

lemma ratioDivisiveness_range:
  "0 \<le> r \<Longrightarrow> r \<le> 1 \<Longrightarrow> 0 \<le> ratioDivisiveness r \<and> ratioDivisiveness r \<le> 1"
  by (simp add: ratioDivisiveness_def abs_if)

lemma engagementWeight_range:
  "0 \<le> n \<Longrightarrow> 0 \<le> engagementWeight n \<and> engagementWeight n \<le> 1"
  by (simp add: engagementWeight_def)

lemma scoreWeight_range:
  "0 \<le> s \<Longrightarrow> 0 \<le> scoreWeight s \<and> scoreWeight s \<le> 1"
  by (simp add: scoreWeight_def)

lemma ratioDivisiveness_peak: "ratioDivisiveness r = 1 \<longleftrightarrow> r = 0.5"
  by (simp add: ratioDivisiveness_def)

lemma ratioDivisiveness_rising: "a < b \<Longrightarrow> b \<le> 0.5 \<Longrightarrow> ratioDivisiveness a < ratioDivisiveness b"
  by (simp add: ratioDivisiveness_def abs_if)

lemma ratioDivisiveness_falling: "0.5 \<le> a \<Longrightarrow> a < b \<Longrightarrow> ratioDivisiveness b < ratioDivisiveness a"
  by (simp add: ratioDivisiveness_def abs_if)

lemma scoreDivisiveness_present:
  "scoreDivisiveness \<lparr>upvote_ratio = Some r, num_comments = Some n, post.score = Some s\<rparr>
     = ratioDivisiveness r * 0.6 + engagementWeight n * 0.3 + scoreWeight s * 0.1"
  by (simp add: scoreDivisiveness_def)

text \<open>
  Claim C3. For a post with approval ratio \<open>r\<close> in \<open>[0, 1]\<close>, comment count \<open>n \<ge> 0\<close> and raw
  score \<open>s \<ge> 0\<close>, the divisiveness score is
  \<open>0.6 * (1 - |r - 0.5| * 2) + 0.3 * min (log10 (n + 1) / 4) 1 + 0.1 * (if s > 100 then 1 else s / 100)\<close>
  and lies in \<open>[0, 1]\<close>. The ratio term is \<open>1 - |r - 0.5| * 2\<close>; it is 1 exactly at
  \<open>r = 0.5\<close>, and it falls strictly as the ratio moves from 0.5 toward 0 or toward 1.
\<close>

theorem scoreDivisiveness_spec:
  assumes "0 \<le> r" and "r \<le> 1" and "0 \<le> n" and "0 \<le> s"
  shows "scoreDivisiveness \<lparr>upvote_ratio = Some r, num_comments = Some n, post.score = Some s\<rparr>
           = 0.6 * (1 - \<bar>r - 0.5\<bar> * 2) + 0.3 * min (log 10 (n + 1) / 4) 1
               + 0.1 * (if s > 100 then 1 else s / 100)
         \<and> 0 \<le> scoreDivisiveness \<lparr>upvote_ratio = Some r, num_comments = Some n, post.score = Some s\<rparr>
         \<and> scoreDivisiveness \<lparr>upvote_ratio = Some r, num_comments = Some n, post.score = Some s\<rparr> \<le> 1
         \<and> ratioDivisiveness r = 1 - \<bar>r - 0.5\<bar> * 2
         \<and> (ratioDivisiveness r = 1 \<longleftrightarrow> r = 0.5)
         \<and> (a < b \<and> b \<le> 0.5 \<longrightarrow> ratioDivisiveness a < ratioDivisiveness b)
         \<and> (0.5 \<le> c \<and> c < d \<longrightarrow> ratioDivisiveness d < ratioDivisiveness c)"
proof -
  let ?p = "\<lparr>upvote_ratio = Some r, num_comments = Some n, post.score = Some s\<rparr>"
  let ?sum = "ratioDivisiveness r * 0.6 + engagementWeight n * 0.3 + scoreWeight s * 0.1"
  note parts = ratioDivisiveness_range[OF assms(1,2)] engagementWeight_range[OF assms(3)]
    scoreWeight_range[OF assms(4)]
  have lower: "0 \<le> ?sum" using parts by simp
  have upper: "?sum \<le> 1" using parts by simp
  have formula: "?sum = 0.6 * (1 - \<bar>r - 0.5\<bar> * 2) + 0.3 * min (log 10 (n + 1) / 4) 1
      + 0.1 * (if s > 100 then 1 else s / 100)"
    by (simp add: ratioDivisiveness_def engagementWeight_def scoreWeight_def)
  have ratio: "ratioDivisiveness r = 1 - \<bar>r - 0.5\<bar> * 2"
    by (simp add: ratioDivisiveness_def)
  show ?thesis
    using lower upper formula ratio ratioDivisiveness_peak[of r]
      ratioDivisiveness_rising[of a b] ratioDivisiveness_falling[of c d]
    by (simp only: scoreDivisiveness_present) blast
qed

theorem scoreDivisiveness_spec_witness:
  "scoreDivisiveness \<lparr>upvote_ratio = Some (1/2), num_comments = Some 9, post.score = Some 200\<rparr> = 31/40
   \<and> ratioDivisiveness (1/2) = 1
   \<and> ratioDivisiveness (1/4) < ratioDivisiveness (1/2)
   \<and> ratioDivisiveness (3/4) < ratioDivisiveness (1/2)"
  using scoreDivisiveness_spec[where r = "1/2" and n = 9 and s = 200
      and a = "1/4" and b = "1/2" and c = "1/2" and d = "3/4"]
  by simp

subsection \<open>The video scorer\<close>

lemmas parse_eval = parseInt_def orZero_def isSpace_def isDigit_def

text \<open>
  Claim C7. For a video whose view count \<open>v \<ge> 0\<close> and comment count \<open>c \<ge> 0\<close> are read from
  its statistics, the divisiveness score is \<open>min ((c / v) * 1000) 1\<close>, the density being 0
  when \<open>v = 0\<close>. 1000 views with 50 comments score 1 (saturated); 100000 views with 50
  comments score 0.5.
\<close>

theorem videoDivisiveness_spec:
  assumes "parseInt (orZero (viewCount stats)) = Some v"
    and "parseInt (orZero (commentCount stats)) = Some c"
    and "0 \<le> v" and "0 \<le> c"
  shows "videoDivisiveness stats
           = Some (min ((if v = 0 then 0 else real_of_int c / real_of_int v) * 1000) 1)
         \<and> videoDivisiveness \<lparr>viewCount = Some ''1000'', commentCount = Some ''50'', likeCount = lc\<rparr>
             = Some 1
         \<and> videoDivisiveness \<lparr>viewCount = Some ''100000'', commentCount = Some ''50'', likeCount = lc\<rparr>
             = Some 0.5"
proof -
  have general: "videoDivisiveness stats
      = Some (min ((if v = 0 then 0 else real_of_int c / real_of_int v) * 1000) 1)"
    using assms by (simp add: videoDivisiveness_def commentDensity_def)
  have saturated: "videoDivisiveness
      \<lparr>viewCount = Some ''1000'', commentCount = Some ''50'', likeCount = lc\<rparr> = Some 1"
    by (simp add: videoDivisiveness_def commentDensity_def parse_eval)
  have half: "videoDivisiveness
      \<lparr>viewCount = Some ''100000'', commentCount = Some ''50'', likeCount = lc\<rparr> = Some 0.5"
    by (simp add: videoDivisiveness_def commentDensity_def parse_eval)
  show ?thesis using general saturated half by blast
qed

theorem videoDivisiveness_spec_witness:
  "parseInt (orZero (Some ''2000'')) = Some 2000
   \<and> parseInt (orZero (Some ''1'')) = Some 1
   \<and> videoDivisiveness \<lparr>viewCount = Some ''2000'', commentCount = Some ''1'', likeCount = None\<rparr>
       = Some (1/2)"
proof -
  have v: "parseInt (orZero (viewCount
      \<lparr>viewCount = Some ''2000'', commentCount = Some ''1'', likeCount = None\<rparr>)) = Some 2000"
    by (simp add: parse_eval)
  have c: "parseInt (orZero (commentCount
      \<lparr>viewCount = Some ''2000'', commentCount = Some ''1'', likeCount = None\<rparr>)) = Some 1"
    by (simp add: parse_eval)
  show ?thesis
    using videoDivisiveness_spec[OF v c] v c by simp
qed

subsection \<open>Missing fields\<close>

text \<open>
  Claim C8, as the code has it. A missing numeric field never stops a scorer. The
  discussion scorer reads a missing \<open>num_comments\<close> or \<open>score\<close> as 0, and a missing
  \<open>upvote_ratio\<close> as its default 0.5 (not 0). The video scorer reads a missing \<open>viewCount\<close>
  or \<open>commentCount\<close> as 0 and then scores 0.
\<close>

theorem missing_field_defaults:
  "scoreDivisiveness (p\<lparr>num_comments := None\<rparr>) = scoreDivisiveness (p\<lparr>num_comments := Some 0\<rparr>)
   \<and> scoreDivisiveness (p\<lparr>post.score := None\<rparr>) = scoreDivisiveness (p\<lparr>post.score := Some 0\<rparr>)
   \<and> scoreDivisiveness (p\<lparr>upvote_ratio := None\<rparr>) = scoreDivisiveness (p\<lparr>upvote_ratio := Some 0.5\<rparr>)
   \<and> videoDivisiveness (stats\<lparr>viewCount := None\<rparr>) = videoDivisiveness (stats\<lparr>viewCount := Some ''0''\<rparr>)
   \<and> videoDivisiveness (stats\<lparr>viewCount := None\<rparr>) = Some 0
   \<and> videoDivisiveness (stats\<lparr>commentCount := None\<rparr>)
       = videoDivisiveness (stats\<lparr>commentCount := Some ''0''\<rparr>)
   \<and> videoDivisiveness (stats\<lparr>commentCount := None\<rparr>) = Some 0"
proof -
  have zero: "parseInt ''0'' = Some 0"
    by (simp add: parse_eval)
  have posts: "scoreDivisiveness (p\<lparr>num_comments := None\<rparr>) = scoreDivisiveness (p\<lparr>num_comments := Some 0\<rparr>)"
    "scoreDivisiveness (p\<lparr>post.score := None\<rparr>) = scoreDivisiveness (p\<lparr>post.score := Some 0\<rparr>)"
    "scoreDivisiveness (p\<lparr>upvote_ratio := None\<rparr>) = scoreDivisiveness (p\<lparr>upvote_ratio := Some 0.5\<rparr>)"
    by (simp_all add: scoreDivisiveness_def)
  have views: "videoDivisiveness (stats\<lparr>viewCount := None\<rparr>) = Some 0"
    "videoDivisiveness (stats\<lparr>viewCount := Some ''0''\<rparr>) = Some 0"
    by (simp_all add: videoDivisiveness_def commentDensity_def orZero_def zero)
  have comments: "videoDivisiveness (stats\<lparr>commentCount := None\<rparr>) = Some 0"
    "videoDivisiveness (stats\<lparr>commentCount := Some ''0''\<rparr>) = Some 0"
    by (auto simp add: videoDivisiveness_def commentDensity_def orZero_def zero split: option.splits)
  show ?thesis using posts views comments by simp
qed

text \<open>The claim as the specification words it fails for \<open>upvote_ratio\<close>: a post without the
  field scores 0.6, the same post with the field set to 0 scores 0.\<close>

theorem missing_upvote_ratio_not_zero:
  "scoreDivisiveness \<lparr>upvote_ratio = None, num_comments = Some 0, post.score = Some 0\<rparr> = 3/5
   \<and> scoreDivisiveness \<lparr>upvote_ratio = Some 0, num_comments = Some 0, post.score = Some 0\<rparr> = 0"
  by (simp add: scoreDivisiveness_def ratioDivisiveness_def engagementWeight_def scoreWeight_def)

subsection \<open>The fuzzy matcher\<close>

lemma bestMatchLoop_cases:
  "(bestMatchLoop kw m (bm, bo) = (bm, bo)
      \<and> (\<forall>e\<in>set m. \<not> (0.4 < overlap kw (longWords (fst e)) \<and> bo < overlap kw (longWords (fst e)))))
   \<or> (\<exists>pre e post. m = pre @ e # post
        \<and> bestMatchLoop kw m (bm, bo) = (Some e, overlap kw (longWords (fst e)))
        \<and> 0.4 < overlap kw (longWords (fst e)) \<and> bo < overlap kw (longWords (fst e))
        \<and> (\<forall>x\<in>set pre. overlap kw (longWords (fst x)) < overlap kw (longWords (fst e)))
        \<and> (\<forall>x\<in>set post. overlap kw (longWords (fst x)) \<le> overlap kw (longWords (fst e))))"
proof (induction m arbitrary: bm bo)
  case Nil
  show ?case by simp
next
  case (Cons a m)
  obtain k v where a: "a = (k, v)" by (cases a)
  let ?ov = "\<lambda>e::string \<times> 'a. overlap kw (longWords (fst e))"
  show ?case
  proof (cases "0.4 < ?ov a \<and> bo < ?ov a")
    case True
    then have step: "bestMatchLoop kw (a # m) (bm, bo) = bestMatchLoop kw m (Some a, ?ov a)"
      by (simp add: a)
    from Cons.IH[of "Some a" "?ov a"] show ?thesis
    proof
      assume h: "bestMatchLoop kw m (Some a, ?ov a) = (Some a, ?ov a)
        \<and> (\<forall>e\<in>set m. \<not> (0.4 < ?ov e \<and> ?ov a < ?ov e))"
      then have "\<forall>x\<in>set m. ?ov x \<le> ?ov a" using True by fastforce
      then have "a # m = [] @ a # m \<and> bestMatchLoop kw (a # m) (bm, bo) = (Some a, ?ov a)
        \<and> 0.4 < ?ov a \<and> bo < ?ov a \<and> (\<forall>x\<in>set []. ?ov x < ?ov a) \<and> (\<forall>x\<in>set m. ?ov x \<le> ?ov a)"
        using h True step by simp
      then show ?thesis by blast
    next
      assume "\<exists>pre e post. m = pre @ e # post
        \<and> bestMatchLoop kw m (Some a, ?ov a) = (Some e, ?ov e)
        \<and> 0.4 < ?ov e \<and> ?ov a < ?ov e
        \<and> (\<forall>x\<in>set pre. ?ov x < ?ov e) \<and> (\<forall>x\<in>set post. ?ov x \<le> ?ov e)"
      then obtain pre e post where h: "m = pre @ e # post"
        "bestMatchLoop kw m (Some a, ?ov a) = (Some e, ?ov e)"
        "0.4 < ?ov e" "?ov a < ?ov e"
        "\<forall>x\<in>set pre. ?ov x < ?ov e" "\<forall>x\<in>set post. ?ov x \<le> ?ov e"
        by blast
      have "a # m = (a # pre) @ e # post \<and> bestMatchLoop kw (a # m) (bm, bo) = (Some e, ?ov e)
        \<and> 0.4 < ?ov e \<and> bo < ?ov e \<and> (\<forall>x\<in>set (a # pre). ?ov x < ?ov e) \<and> (\<forall>x\<in>set post. ?ov x \<le> ?ov e)"
        using h True step by simp
      then show ?thesis by blast
    qed
  next
    case False
    then have step: "bestMatchLoop kw (a # m) (bm, bo) = bestMatchLoop kw m (bm, bo)"
      by (auto simp add: a)
    from Cons.IH[of bm bo] show ?thesis
    proof
      assume h: "bestMatchLoop kw m (bm, bo) = (bm, bo)
        \<and> (\<forall>e\<in>set m. \<not> (0.4 < ?ov e \<and> bo < ?ov e))"
      then have "bestMatchLoop kw (a # m) (bm, bo) = (bm, bo)
        \<and> (\<forall>e\<in>set (a # m). \<not> (0.4 < ?ov e \<and> bo < ?ov e))"
        using False step by simp
      then show ?thesis by blast
    next
      assume "\<exists>pre e post. m = pre @ e # post
        \<and> bestMatchLoop kw m (bm, bo) = (Some e, ?ov e)
        \<and> 0.4 < ?ov e \<and> bo < ?ov e
        \<and> (\<forall>x\<in>set pre. ?ov x < ?ov e) \<and> (\<forall>x\<in>set post. ?ov x \<le> ?ov e)"
      then obtain pre e post where h: "m = pre @ e # post"
        "bestMatchLoop kw m (bm, bo) = (Some e, ?ov e)"
        "0.4 < ?ov e" "bo < ?ov e"
        "\<forall>x\<in>set pre. ?ov x < ?ov e" "\<forall>x\<in>set post. ?ov x \<le> ?ov e"
        by blast
      have "?ov a < ?ov e" using False h(3,4) by linarith
      then have "a # m = (a # pre) @ e # post \<and> bestMatchLoop kw (a # m) (bm, bo) = (Some e, ?ov e)
        \<and> 0.4 < ?ov e \<and> bo < ?ov e \<and> (\<forall>x\<in>set (a # pre). ?ov x < ?ov e) \<and> (\<forall>x\<in>set post. ?ov x \<le> ?ov e)"
        using h step by simp
      then show ?thesis by blast
    qed
  qed
qed

lemma findBestMatch_None_iff:
  "findBestMatch key pool = None
     \<longleftrightarrow> (\<forall>e\<in>set pool. overlap (longWords key) (longWords (fst e)) \<le> 0.4)"
proof -
  let ?ov = "\<lambda>e::string \<times> 'a. overlap (longWords key) (longWords (fst e))"
  from bestMatchLoop_cases[of "longWords key" pool None 0] show ?thesis
  proof
    assume h: "bestMatchLoop (longWords key) pool (None, 0) = (None, 0)
      \<and> (\<forall>e\<in>set pool. \<not> (0.4 < ?ov e \<and> 0 < ?ov e))"
    then have "\<forall>e\<in>set pool. ?ov e \<le> 0.4" by fastforce
    then show ?thesis using h by (simp add: findBestMatch_def)
  next
    assume "\<exists>pre e post. pool = pre @ e # post
      \<and> bestMatchLoop (longWords key) pool (None, 0) = (Some e, ?ov e)
      \<and> 0.4 < ?ov e \<and> 0 < ?ov e
      \<and> (\<forall>x\<in>set pre. ?ov x < ?ov e) \<and> (\<forall>x\<in>set post. ?ov x \<le> ?ov e)"
    then obtain pre e post where h: "pool = pre @ e # post"
      "bestMatchLoop (longWords key) pool (None, 0) = (Some e, ?ov e)" "0.4 < ?ov e"
      by blast
    have "e \<in> set pool" using h(1) by simp
    then have "\<not> (\<forall>e\<in>set pool. ?ov e \<le> 0.4)" using h(3) by force
    then show ?thesis using h(2) by (simp add: findBestMatch_def)
  qed
qed

lemma findBestMatch_Some:
  assumes "findBestMatch key pool = Some e"
  shows "\<exists>pre post. pool = pre @ e # post
      \<and> 0.4 < overlap (longWords key) (longWords (fst e))
      \<and> (\<forall>x\<in>set pre. overlap (longWords key) (longWords (fst x))
            < overlap (longWords key) (longWords (fst e)))
      \<and> (\<forall>x\<in>set post. overlap (longWords key) (longWords (fst x))
            \<le> overlap (longWords key) (longWords (fst e)))"
proof -
  let ?ov = "\<lambda>e::string \<times> 'a. overlap (longWords key) (longWords (fst e))"
  from bestMatchLoop_cases[of "longWords key" pool None 0] show ?thesis
  proof
    assume "bestMatchLoop (longWords key) pool (None, 0) = (None, 0)
      \<and> (\<forall>e\<in>set pool. \<not> (0.4 < ?ov e \<and> 0 < ?ov e))"
    then show ?thesis using assms by (simp add: findBestMatch_def)
  next
    assume "\<exists>pre e post. pool = pre @ e # post
      \<and> bestMatchLoop (longWords key) pool (None, 0) = (Some e, ?ov e)
      \<and> 0.4 < ?ov e \<and> 0 < ?ov e
      \<and> (\<forall>x\<in>set pre. ?ov x < ?ov e) \<and> (\<forall>x\<in>set post. ?ov x \<le> ?ov e)"
    then obtain pre e' post where h: "pool = pre @ e' # post"
      "bestMatchLoop (longWords key) pool (None, 0) = (Some e', ?ov e')" "0.4 < ?ov e'"
      "\<forall>x\<in>set pre. ?ov x < ?ov e'" "\<forall>x\<in>set post. ?ov x \<le> ?ov e'"
      by blast
    have "e' = e" using assms h(2) by (simp add: findBestMatch_def)
    then show ?thesis using h by blast
  qed
qed

lemma distinct_longWords: "distinct (longWords key)"
  by (simp add: longWords_def)

lemma set_longWords: "set (longWords key) = {w \<in> set (split key). length w > 3}"
  by (auto simp add: longWords_def)

lemma overlap_card:
  assumes "distinct kw" and "distinct ew"
  shows "overlap kw ew
    = real (card (set kw \<inter> set ew)) / real (max (max (card (set kw)) (card (set ew))) 1)"
proof -
  have "distinct (filter (\<lambda>w. w \<in> set ew) kw)"
    using assms(1) by simp
  then have "card (set (filter (\<lambda>w. w \<in> set ew) kw)) = length (filter (\<lambda>w. w \<in> set ew) kw)"
    by (rule distinct_card)
  moreover have "set (filter (\<lambda>w. w \<in> set ew) kw) = set kw \<inter> set ew"
    by auto
  ultimately have "length (filter (\<lambda>w. w \<in> set ew) kw) = card (set kw \<inter> set ew)"
    by simp
  then show ?thesis
    using assms by (simp add: overlap_def distinct_card)
qed

lemma overlap_empty: "overlap [] ew = 0"
  by (simp add: overlap_def)

lemmas string_eval = normalizeTitle_def trim_def toLowerCase_def lowerChar_def isLowerAlnum_def
  isSpace_def longWords_def split_def

lemma findBestMatch_single:
  "findBestMatch key [(k, v)]
     = (if 0.4 < overlap (longWords key) (longWords k) then Some (k, v) else None)"
  by (simp add: findBestMatch_def)

lemma overlap_of_five:
  assumes "card (set (longWords key)) = 5" and "card (set (longWords existingKey)) = 5"
    and "card (set (longWords key) \<inter> set (longWords existingKey)) = n"
  shows "overlap (longWords key) (longWords existingKey) = real n / 5"
  using assms overlap_card[OF distinct_longWords distinct_longWords, of key existingKey]
  by simp

text \<open>
  Claim C2. The matcher returns an entry exactly when some pool key has an overlap above
  0.4 with the new key, the overlap being the number of shared tokens over the larger of
  the two token counts and 1, and the tokens the words longer than 3 characters. The entry
  it returns has the largest overlap of the pool, and every entry inserted before it has a
  strictly smaller one. Two keys of 5 long words each that share 2 of them have overlap 0.4
  and do not match; if they share 3 they have overlap 0.6 and match. A key with no long
  word matches nothing.
\<close>

theorem findBestMatch_spec:
  "(findBestMatch key pool \<noteq> None
      \<longleftrightarrow> (\<exists>e\<in>set pool. 0.4 < overlap (longWords key) (longWords (fst e))))
   \<and> (\<forall>e. findBestMatch key pool = Some e \<longrightarrow>
        (\<exists>pre post. pool = pre @ e # post
           \<and> 0.4 < overlap (longWords key) (longWords (fst e))
           \<and> (\<forall>x\<in>set pre. overlap (longWords key) (longWords (fst x))
                 < overlap (longWords key) (longWords (fst e)))
           \<and> (\<forall>x\<in>set post. overlap (longWords key) (longWords (fst x))
                 \<le> overlap (longWords key) (longWords (fst e)))))
   \<and> overlap (longWords key) (longWords existingKey)
        = real (card (set (longWords key) \<inter> set (longWords existingKey)))
            / real (max (max (card (set (longWords key))) (card (set (longWords existingKey)))) 1)
   \<and> set (longWords key) = {w \<in> set (split key). length w > 3}
   \<and> (card (set (longWords key)) = 5 \<and> card (set (longWords existingKey)) = 5
        \<and> card (set (longWords key) \<inter> set (longWords existingKey)) = 2
      \<longrightarrow> overlap (longWords key) (longWords existingKey) = 0.4
          \<and> findBestMatch key [(existingKey, v)] = None)
   \<and> (card (set (longWords key)) = 5 \<and> card (set (longWords existingKey)) = 5
        \<and> card (set (longWords key) \<inter> set (longWords existingKey)) = 3
      \<longrightarrow> overlap (longWords key) (longWords existingKey) = 0.6
          \<and> findBestMatch key [(existingKey, v)] = Some (existingKey, v))
   \<and> (longWords key = [] \<longrightarrow> findBestMatch key pool = None)"
proof -
  have found: "findBestMatch key pool \<noteq> None
      \<longleftrightarrow> (\<exists>e\<in>set pool. 0.4 < overlap (longWords key) (longWords (fst e)))"
    using findBestMatch_None_iff[of key pool] by (auto simp add: not_le)
  have best: "\<forall>e. findBestMatch key pool = Some e \<longrightarrow>
        (\<exists>pre post. pool = pre @ e # post
           \<and> 0.4 < overlap (longWords key) (longWords (fst e))
           \<and> (\<forall>x\<in>set pre. overlap (longWords key) (longWords (fst x))
                 < overlap (longWords key) (longWords (fst e)))
           \<and> (\<forall>x\<in>set post. overlap (longWords key) (longWords (fst x))
                 \<le> overlap (longWords key) (longWords (fst e))))"
    using findBestMatch_Some[of key pool] by blast
  have ratio: "overlap (longWords key) (longWords existingKey)
        = real (card (set (longWords key) \<inter> set (longWords existingKey)))
            / real (max (max (card (set (longWords key))) (card (set (longWords existingKey)))) 1)"
    by (rule overlap_card) (rule distinct_longWords)+
  have two: "card (set (longWords key)) = 5 \<and> card (set (longWords existingKey)) = 5
        \<and> card (set (longWords key) \<inter> set (longWords existingKey)) = 2
      \<longrightarrow> overlap (longWords key) (longWords existingKey) = 0.4
          \<and> findBestMatch key [(existingKey, v)] = None"
    using overlap_of_five[of key existingKey 2] by (simp add: findBestMatch_single)
  have three: "card (set (longWords key)) = 5 \<and> card (set (longWords existingKey)) = 5
        \<and> card (set (longWords key) \<inter> set (longWords existingKey)) = 3
      \<longrightarrow> overlap (longWords key) (longWords existingKey) = 0.6
          \<and> findBestMatch key [(existingKey, v)] = Some (existingKey, v)"
    using overlap_of_five[of key existingKey 3] by (simp add: findBestMatch_single)
  have none: "longWords key = [] \<longrightarrow> findBestMatch key pool = None"
    by (simp add: findBestMatch_None_iff overlap_empty)
  show ?thesis
    using found best ratio set_longWords[of key] two three none
    by (intro conjI)
qed

text \<open>A pool of three entries: the first shares 2 of 5 long words with the new key, the
  next two share 3 of 5; the earlier of the tied entries is returned. Alone in a pool, the
  first entry is not matched and the second is. The key \<open>gun ban\<close> has no long word and
  does not match itself.\<close>

theorem findBestMatch_spec_witness:
  "findBestMatch ''senate votes border wall funding''
     [(''senate votes climate bill today'', 1::nat),
      (''senate votes border bill today'', 2),
      (''house senate votes border deal'', 3)]
     = Some (''senate votes border bill today'', 2)
   \<and> (\<exists>pre post.
        [(''senate votes climate bill today'', 1::nat),
         (''senate votes border bill today'', 2),
         (''house senate votes border deal'', 3)]
          = pre @ (''senate votes border bill today'', 2) # post
        \<and> (\<forall>x\<in>set pre. overlap (longWords ''senate votes border wall funding'') (longWords (fst x))
              < overlap (longWords ''senate votes border wall funding'')
                  (longWords ''senate votes border bill today''))
        \<and> (\<forall>x\<in>set post. overlap (longWords ''senate votes border wall funding'') (longWords (fst x))
              \<le> overlap (longWords ''senate votes border wall funding'')
                  (longWords ''senate votes border bill today'')))
   \<and> overlap (longWords ''senate votes border wall funding'')
        (longWords ''house senate votes border deal'') = 0.6
   \<and> card (set (longWords ''senate votes border wall funding'')
        \<inter> set (longWords ''senate votes climate bill today'')) = 2
   \<and> findBestMatch ''senate votes border wall funding''
        [(''senate votes climate bill today'', 1::nat)] = None
   \<and> card (set (longWords ''senate votes border wall funding'')
        \<inter> set (longWords ''senate votes border bill today'')) = 3
   \<and> findBestMatch ''senate votes border wall funding''
        [(''senate votes border bill today'', 2::nat)] = Some (''senate votes border bill today'', 2)
   \<and> longWords ''gun ban'' = []
   \<and> findBestMatch ''gun ban'' [(''gun ban'', 1::nat)] = None"
proof -
  let ?key = "''senate votes border wall funding''"
  let ?pool = "[(''senate votes climate bill today'', 1::nat),
      (''senate votes border bill today'', 2),
      (''house senate votes border deal'', 3)]"
  have hit: "findBestMatch ?key ?pool = Some (''senate votes border bill today'', 2)"
    by (simp add: findBestMatch_def overlap_def string_eval)
  have tie: "overlap (longWords ?key) (longWords ''house senate votes border deal'') = 0.6"
    by (simp add: overlap_def string_eval)
  note best = findBestMatch_spec[of ?key ?pool,
      THEN conjunct2, THEN conjunct1, rule_format, OF hit]
  then obtain pre post where
    "?pool = pre @ (''senate votes border bill today'', 2) # post"
    "\<forall>x\<in>set pre. overlap (longWords ?key) (longWords (fst x))
       < overlap (longWords ?key) (longWords (fst (''senate votes border bill today'', 2::nat)))"
    "\<forall>x\<in>set post. overlap (longWords ?key) (longWords (fst x))
       \<le> overlap (longWords ?key) (longWords (fst (''senate votes border bill today'', 2::nat)))"
    by blast
  then have first_of_tied: "\<exists>pre post. ?pool = pre @ (''senate votes border bill today'', 2) # post
        \<and> (\<forall>x\<in>set pre. overlap (longWords ?key) (longWords (fst x))
              < overlap (longWords ?key) (longWords ''senate votes border bill today''))
        \<and> (\<forall>x\<in>set post. overlap (longWords ?key) (longWords (fst x))
              \<le> overlap (longWords ?key) (longWords ''senate votes border bill today''))"
    unfolding fst_conv by blast
  have five: "card (set (longWords ?key)) = 5"
    "card (set (longWords ''senate votes climate bill today'')) = 5"
    "card (set (longWords ''senate votes border bill today'')) = 5"
    by (simp_all add: string_eval)
  have shared2: "card (set (longWords ?key) \<inter> set (longWords ''senate votes climate bill today'')) = 2"
    by (simp add: string_eval)
  have shared3: "card (set (longWords ?key) \<inter> set (longWords ''senate votes border bill today'')) = 3"
    by (simp add: string_eval)
  note two = findBestMatch_spec[of ?key "[]" "''senate votes climate bill today''" "1::nat",
      THEN conjunct2, THEN conjunct2, THEN conjunct2, THEN conjunct2, THEN conjunct1, THEN mp]
  have no_match: "findBestMatch ?key [(''senate votes climate bill today'', 1::nat)] = None"
    using two five(1,2) shared2 by simp
  note three = findBestMatch_spec[of ?key "[]" "''senate votes border bill today''" "2::nat",
      THEN conjunct2, THEN conjunct2, THEN conjunct2, THEN conjunct2, THEN conjunct2,
      THEN conjunct1, THEN mp]
  have match: "findBestMatch ?key [(''senate votes border bill today'', 2::nat)]
      = Some (''senate votes border bill today'', 2)"
    using three five(1,3) shared3 by simp
  have short: "longWords ''gun ban'' = []"
    by (simp add: string_eval)
  note none = findBestMatch_spec[of "''gun ban''" "[(''gun ban'', 1::nat)]",
      THEN conjunct2, THEN conjunct2, THEN conjunct2, THEN conjunct2, THEN conjunct2,
      THEN conjunct2, THEN mp]
  have short_none: "findBestMatch ''gun ban'' [(''gun ban'', 1::nat)] = None"
    using none short by simp
  show ?thesis
    using hit first_of_tied tie shared2 no_match shared3 match short short_none
    by (intro conjI)
qed

subsection \<open>The composite ranker\<close>

lemma withComposite_score: "composite_score (withComposite f c) = f c"
  by (simp add: withComposite_def merged.defs ranked.defs)

lemma withComposite_truncate: "merged.truncate (withComposite f c) = c"
  by (simp add: withComposite_def merged.defs ranked.defs)

lemma truncate_fields:
  "reddit_divisiveness (merged.truncate c) = reddit_divisiveness c"
  "reddit_comments (merged.truncate c) = reddit_comments c"
  "google_score (merged.truncate c) = google_score c"
  "youtube_divisiveness (merged.truncate c) = youtube_divisiveness c"
  "sources (merged.truncate c) = sources c"
  by (simp_all add: merged.defs titled.defs)

lemma composite_truncate:
  "divisivenessComposite (merged.truncate c) = divisivenessComposite c"
  "mainstreamComposite (merged.truncate c) = mainstreamComposite c"
  by (simp_all add: divisivenessComposite_def mainstreamComposite_def multiPlatform_def
      engagementScore_def truncate_fields)

lemma rankTop_scoredValues:
  "\<exists>ys. rankTop (scoredValues f pool) = take 20 ys
     \<and> mset (map merged.truncate ys) = mset (Map_values pool)
     \<and> (\<forall>c\<in>set ys. composite_score c = f (merged.truncate c))
     \<and> sorted_wrt (\<lambda>a b. composite_score b \<le> composite_score a) ys
     \<and> (\<forall>k. map merged.truncate (filter (\<lambda>c. composite_score c = k) ys)
            = filter (\<lambda>c. f c = k) (Map_values pool))"
proof -
  let ?xs = "scoredValues f pool"
  let ?ys = "sort_key (\<lambda>c. - composite_score c) ?xs"
  have undo: "map merged.truncate ?xs = Map_values pool"
    by (simp add: scoredValues_def withComposite_truncate comp_def)
  have "mset (map merged.truncate ?ys) = mset (map merged.truncate ?xs)"
    by simp
  then have perm: "mset (map merged.truncate ?ys) = mset (Map_values pool)"
    using undo by simp
  have scores: "\<forall>c\<in>set ?ys. composite_score c = f (merged.truncate c)"
    by (auto simp add: scoredValues_def withComposite_truncate withComposite_score)
  have "sorted (map (\<lambda>c. - composite_score c) ?ys)"
    by (rule sorted_sort_key)
  then have order: "sorted_wrt (\<lambda>a b. composite_score b \<le> composite_score a) ?ys"
    by (simp add: sorted_map)
  have ties: "map merged.truncate (filter (\<lambda>c. composite_score c = k) ?ys)
      = filter (\<lambda>c. f c = k) (Map_values pool)" for k
  proof -
    have "filter (\<lambda>c. composite_score c = k) ?ys = filter (\<lambda>c. composite_score c = k) ?xs"
      using sort_key_stable[of "\<lambda>c. - composite_score c" "- k" ?xs] by simp
    also have "\<dots> = map (withComposite f) (filter (\<lambda>c. f c = k) (Map_values pool))"
      by (simp add: scoredValues_def filter_map comp_def withComposite_score)
    finally show ?thesis
      by (simp add: withComposite_truncate comp_def)
  qed
  have "rankTop ?xs = take 20 ?ys"
    by (simp add: rankTop_def)
  then show ?thesis
    using perm scores order ties by blast
qed


lemma multiPlatform_range: "0 \<le> multiPlatform c \<and> multiPlatform c \<le> 1"
  by (simp add: multiPlatform_def)

lemma divisivenessComposite_range:
  assumes "0 \<le> reddit_divisiveness c" "reddit_divisiveness c \<le> 1"
    "0 \<le> youtube_divisiveness c" "youtube_divisiveness c \<le> 1"
    "0 \<le> google_score c" "google_score c \<le> 1"
  shows "0 \<le> divisivenessComposite c \<and> divisivenessComposite c \<le> 1"
  using assms multiPlatform_range[of c] by (simp add: divisivenessComposite_def)

lemma mainstreamComposite_range:
  assumes "0 \<le> reddit_divisiveness c" "reddit_divisiveness c \<le> 1"
    "0 \<le> engagementScore c" "engagementScore c \<le> 1"
    "0 \<le> google_score c" "google_score c \<le> 1"
  shows "0 \<le> mainstreamComposite c \<and> mainstreamComposite c \<le> 1"
  using assms multiPlatform_range[of c] by (simp add: mainstreamComposite_def)

lemma rankTop_member:
  assumes "c \<in> set (rankTop (scoredValues f pool))"
  shows "\<exists>m\<in>set (Map_values pool). c = withComposite f m"
proof -
  have "c \<in> set (sort_key (\<lambda>c. - composite_score c) (scoredValues f pool))"
    using assms unfolding rankTop_def by (rule in_set_takeD)
  then show ?thesis
    by (auto simp add: scoredValues_def)
qed

lemmas merge_eval = mergePool_def addReddit_def mergeGoogle_def mergeYoutube_def
  findBestMatch_def overlap_def string_eval Let_def

lemmas rank_eval = mergeSignals_def mergeSignals_mainstream_def scoredValues_def Map_values_def
  rankTop_def withComposite_def divisivenessComposite_def mainstreamComposite_def
  multiPlatform_def engagementScore_def merged.defs ranked.defs

text \<open>A run on two Reddit clusters, one trend that matches the first and one video that
  matches the second.\<close>

lemma example_pool:
  "mergePool
     [\<lparr>title = ''Congress Passes Immigration Reform Bill'', divisiveness_score = 4/5,
       total_comments = 1000, subreddits = [''politics'']\<rparr>,
      \<lparr>title = ''Minimum Wage Increase'', divisiveness_score = 1/2,
       total_comments = 5000, subreddits = [''news'']\<rparr>]
     [\<lparr>title = ''immigration reform bill passes congress'', score = 90\<rparr>]
     [\<lparr>title = ''Minimum wage increase debate'', divisiveness_score = 1/2\<rparr>]
   = [(''congress passes immigration reform bill'',
       \<lparr>title = ''Congress Passes Immigration Reform Bill'', reddit_divisiveness = 4/5,
        reddit_comments = 1000, reddit_subreddits = [''politics''], google_score = 9/10,
        youtube_divisiveness = 0, sources = [''reddit'', ''google_trends'']\<rparr>),
      (''minimum wage increase'',
       \<lparr>title = ''Minimum Wage Increase'', reddit_divisiveness = 1/2,
        reddit_comments = 5000, reddit_subreddits = [''news''], google_score = 0,
        youtube_divisiveness = 1/2, sources = [''reddit'', ''youtube'']\<rparr>)]"
  by (simp add: merge_eval)

lemma example_scores:
  "map composite_score (mergeSignals
     [\<lparr>title = ''Congress Passes Immigration Reform Bill'', divisiveness_score = 4/5,
       total_comments = 1000, subreddits = [''politics'']\<rparr>,
      \<lparr>title = ''Minimum Wage Increase'', divisiveness_score = 1/2,
       total_comments = 5000, subreddits = [''news'']\<rparr>]
     [\<lparr>title = ''immigration reform bill passes congress'', score = 90\<rparr>]
     [\<lparr>title = ''Minimum wage increase debate'', divisiveness_score = 1/2\<rparr>])
   = [119/200, 9/20]"
  unfolding mergeSignals_def example_pool by (simp add: rank_eval)

text \<open>
  Claim C10. If the Reddit divisiveness, the YouTube divisiveness, the Google score and
  the engagement term of every candidate of the pool lie in \<open>[0, 1]\<close>, then every composite
  score that \<^const>\<open>mergeSignals\<close> returns lies in \<open>[0, 1]\<close>, in both weightings: the weights
  sum to 1 and the cross-platform term is capped at 1.
\<close>

theorem composite_in_unit_interval:
  assumes "\<forall>c\<in>set (Map_values (mergePool r g y)).
      0 \<le> reddit_divisiveness c \<and> reddit_divisiveness c \<le> 1
      \<and> 0 \<le> youtube_divisiveness c \<and> youtube_divisiveness c \<le> 1
      \<and> 0 \<le> google_score c \<and> google_score c \<le> 1
      \<and> 0 \<le> engagementScore c \<and> engagementScore c \<le> 1"
  shows "(\<forall>c\<in>set (mergeSignals r g y). 0 \<le> composite_score c \<and> composite_score c \<le> 1)
       \<and> (\<forall>c\<in>set (mergeSignals_mainstream r g y). 0 \<le> composite_score c \<and> composite_score c \<le> 1)"
proof -
  have first: "0 \<le> composite_score c \<and> composite_score c \<le> 1" if mem: "c \<in> set (mergeSignals r g y)" for c
  proof -
    obtain m where m: "m \<in> set (Map_values (mergePool r g y))" "c = withComposite divisivenessComposite m"
      using rankTop_member[OF mem[unfolded mergeSignals_def]] by blast
    have "0 \<le> divisivenessComposite m \<and> divisivenessComposite m \<le> 1"
      using assms m(1) by (intro divisivenessComposite_range) auto
    then show ?thesis
      using m(2) by (simp add: withComposite_score)
  qed
  have second: "0 \<le> composite_score c \<and> composite_score c \<le> 1"
    if mem: "c \<in> set (mergeSignals_mainstream r g y)" for c
  proof -
    obtain m where m: "m \<in> set (Map_values (mergePool r g y))" "c = withComposite mainstreamComposite m"
      using rankTop_member[OF mem[unfolded mergeSignals_mainstream_def]] by blast
    have "0 \<le> mainstreamComposite m \<and> mainstreamComposite m \<le> 1"
      using assms m(1) by (intro mainstreamComposite_range) auto
    then show ?thesis
      using m(2) by (simp add: withComposite_score)
  qed
  show ?thesis using first second by blast
qed

theorem composite_in_unit_interval_witness:
  "list_all (\<lambda>c. 0 \<le> composite_score c \<and> composite_score c \<le> 1)
     (mergeSignals
       [\<lparr>title = ''Congress Passes Immigration Reform Bill'', divisiveness_score = 4/5,
         total_comments = 1000, subreddits = [''politics'']\<rparr>,
        \<lparr>title = ''Minimum Wage Increase'', divisiveness_score = 1/2,
         total_comments = 5000, subreddits = [''news'']\<rparr>]
       [\<lparr>title = ''immigration reform bill passes congress'', score = 90\<rparr>]
       [\<lparr>title = ''Minimum wage increase debate'', divisiveness_score = 1/2\<rparr>])
   \<and> list_all (\<lambda>c. 0 \<le> composite_score c \<and> composite_score c \<le> 1)
     (mergeSignals_mainstream
       [\<lparr>title = ''Congress Passes Immigration Reform Bill'', divisiveness_score = 4/5,
         total_comments = 1000, subreddits = [''politics'']\<rparr>,
        \<lparr>title = ''Minimum Wage Increase'', divisiveness_score = 1/2,
         total_comments = 5000, subreddits = [''news'']\<rparr>]
       [\<lparr>title = ''immigration reform bill passes congress'', score = 90\<rparr>]
       [\<lparr>title = ''Minimum wage increase debate'', divisiveness_score = 1/2\<rparr>])
   \<and> map composite_score (mergeSignals
       [\<lparr>title = ''Congress Passes Immigration Reform Bill'', divisiveness_score = 4/5,
         total_comments = 1000, subreddits = [''politics'']\<rparr>,
        \<lparr>title = ''Minimum Wage Increase'', divisiveness_score = 1/2,
         total_comments = 5000, subreddits = [''news'']\<rparr>]
       [\<lparr>title = ''immigration reform bill passes congress'', score = 90\<rparr>]
       [\<lparr>title = ''Minimum wage increase debate'', divisiveness_score = 1/2\<rparr>])
     = [119/200, 9/20]"
proof -
  let ?r = "[\<lparr>title = ''Congress Passes Immigration Reform Bill'', divisiveness_score = 4/5,
         total_comments = 1000, subreddits = [''politics'']\<rparr>,
        \<lparr>title = ''Minimum Wage Increase'', divisiveness_score = 1/2,
         total_comments = 5000, subreddits = [''news'']\<rparr>]"
  let ?g = "[\<lparr>title = ''immigration reform bill passes congress'', score = 90\<rparr>]"
  let ?y = "[\<lparr>title = ''Minimum wage increase debate'', divisiveness_score = 1/2\<rparr>]"
  have signals: "\<forall>c\<in>set (Map_values (mergePool ?r ?g ?y)).
      0 \<le> reddit_divisiveness c \<and> reddit_divisiveness c \<le> 1
      \<and> 0 \<le> youtube_divisiveness c \<and> youtube_divisiveness c \<le> 1
      \<and> 0 \<le> google_score c \<and> google_score c \<le> 1
      \<and> 0 \<le> engagementScore c \<and> engagementScore c \<le> 1"
    unfolding example_pool by (simp add: Map_values_def engagementScore_def)
  show ?thesis
    using composite_in_unit_interval[OF signals] example_scores
    by (simp only: list_all_iff) blast
qed

subsection \<open>Double-precision scores\<close>

lemmas double_eval = roundDouble_def binaryExponent_def roundHalfEven_def halvings.simps
  doublings.simps Let_def scaleBinary_def

lemmas float_eval = fmul_def fadd_def fdiv_def multiPlatformDouble_def divisivenessDouble_def
  engagementDouble_def mainstreamDouble_def double_eval

lemmas ranker_eval = rankedCandidates_def scoredValues_def Map_values_def rankTop_def
  withComposite_def merged.defs ranked.defs float_eval

lemma double_literals:
  "roundDouble (45/100) = 8106479329266893 / 18014398509481984"
  "roundDouble (14/100) = 1261007895663739 / 9007199254740992"
  "roundDouble (1/10) = 3602879701896397 / 36028797018963968"
  "roundDouble (3/4) = 3/4"
  "roundDouble 5000 = 5000"
  "roundDouble (1/3) = 6004799503160661 / 18014398509481984"
  by (simp_all add: double_eval)

text \<open>The binary exponent and the rounding error of \<^const>\<open>roundDouble\<close>.\<close>

lemma halvings_bounds:
  "1 \<le> x \<Longrightarrow> 2 ^ halvings x \<le> x \<and> x < 2 * 2 ^ halvings x"
proof (induction x rule: halvings.induct)
  case (1 x)
  show ?case
  proof (cases "2 \<le> x")
    case True
    then have "2 ^ halvings (x / 2) \<le> x / 2 \<and> x / 2 < 2 * 2 ^ halvings (x / 2)"
      using "1.IH" by simp
    moreover have "halvings x = Suc (halvings (x / 2))"
      using True by (subst halvings.simps) simp
    ultimately show ?thesis by simp
  next
    case False
    then have "halvings x = 0" by (subst halvings.simps) simp
    then show ?thesis using False "1.prems" by simp
  qed
qed

lemma doublings_bounds:
  "0 < x \<Longrightarrow> x < 1 \<Longrightarrow> 1 \<le> x * 2 ^ doublings x \<and> x * 2 ^ doublings x < 2"
proof (induction x rule: doublings.induct)
  case (1 x)
  have unfold: "doublings x = Suc (doublings (2 * x))"
    using "1.prems" by (subst doublings.simps) simp
  show ?case
  proof (cases "2 * x < 1")
    case True
    then have "1 \<le> 2 * x * 2 ^ doublings (2 * x) \<and> 2 * x * 2 ^ doublings (2 * x) < 2"
      using "1.IH" "1.prems" by simp
    then show ?thesis using unfold by (simp add: mult.commute mult.left_commute)
  next
    case False
    then have "doublings (2 * x) = 0" by (subst doublings.simps) simp
    then show ?thesis using unfold False "1.prems" by simp
  qed
qed

lemma scaleBinary_powr: "scaleBinary x k = x * 2 powr (real_of_int k)"
proof (cases "0 \<le> k")
  case True
  then have "(2::real) ^ nat k = 2 powr (real_of_int k)"
    by (simp add: powr_realpow[symmetric])
  then show ?thesis using True by (simp add: scaleBinary_def)
next
  case False
  then have "(2::real) ^ nat (- k) = 2 powr (real_of_int (- k))"
    by (simp add: powr_realpow[symmetric])
  then have "x / 2 ^ nat (- k) = x * 2 powr (real_of_int k)"
    by (simp add: powr_minus divide_inverse)
  then show ?thesis using False by (simp add: scaleBinary_def)
qed

lemma binaryExponent_bounds:
  assumes "0 < x"
  shows "2 powr (real_of_int (binaryExponent x)) \<le> x
       \<and> x < 2 * 2 powr (real_of_int (binaryExponent x))"
proof (cases "1 \<le> x")
  case True
  then have "binaryExponent x = int (halvings x)" by (simp add: binaryExponent_def)
  moreover have "2 powr (real (halvings x)) = (2::real) ^ halvings x"
    by (simp add: powr_realpow)
  ultimately show ?thesis using halvings_bounds[OF True] by simp
next
  case False
  then have e: "binaryExponent x = - int (doublings x)" by (simp add: binaryExponent_def)
  have p: "2 powr (- real (doublings x)) = 1 / (2::real) ^ doublings x"
    by (simp add: powr_minus powr_realpow divide_inverse)
  have b: "1 \<le> x * 2 ^ doublings x \<and> x * 2 ^ doublings x < 2"
    using doublings_bounds assms False by simp
  have pos: "(0::real) < 2 ^ doublings x" by simp
  have "1 / 2 ^ doublings x \<le> x"
    using b pos by (simp add: divide_le_eq)
  moreover have "x < 2 * (1 / 2 ^ doublings x)"
    using b pos by (simp add: less_divide_eq)
  ultimately show ?thesis using e p by simp
qed

lemma roundHalfEven_close: "\<bar>real_of_int (roundHalfEven r) - r\<bar> \<le> 1 / 2"
proof -
  have "real_of_int \<lfloor>r\<rfloor> \<le> r" "r < real_of_int \<lfloor>r\<rfloor> + 1" by linarith+
  then show ?thesis
    by (auto simp add: roundHalfEven_def Let_def)
qed

lemma roundDouble_error: "\<bar>roundDouble x - x\<bar> \<le> max (\<bar>x\<bar> / 2 ^ 53) (1 / 2 ^ 1075)"
proof (cases "x = 0")
  case True
  then show ?thesis by (simp add: roundDouble_def)
next
  case False
  define a where "a = \<bar>x\<bar>"
  define e where "e = max (binaryExponent a) (- 1022)"
  define m where "m = scaleBinary a (52 - e)"
  define n where "n = roundHalfEven m"
  define u where "u = 2 powr (real_of_int (e - 52))"
  have a: "0 < a" using False by (simp add: a_def)
  have u: "0 < u" by (simp add: u_def)
  have r: "roundDouble x = sgn x * (real_of_int n * u)"
    using False by (simp add: roundDouble_def Let_def a_def e_def m_def n_def u_def scaleBinary_powr)
  have "m * u = a * (2 powr (real_of_int (52 - e)) * 2 powr (real_of_int (e - 52)))"
    by (simp add: m_def u_def scaleBinary_powr)
  also have "2 powr (real_of_int (52 - e)) * 2 powr (real_of_int (e - 52)) = (1::real)"
    by (simp add: powr_add[symmetric])
  finally have mu: "m * u = a" by simp
  have x: "x = sgn x * (m * u)"
    using mu by (simp add: a_def sgn_mult_abs)
  have "roundDouble x - x = sgn x * ((real_of_int n - m) * u)"
    using r x by (simp add: algebra_simps)
  then have "\<bar>roundDouble x - x\<bar> = \<bar>real_of_int n - m\<bar> * u"
    using False u by (simp add: abs_mult abs_sgn_eq)
  also have "\<dots> \<le> (1 / 2) * u"
    using roundHalfEven_close[of m] u by (simp add: n_def mult_right_mono)
  finally have err: "\<bar>roundDouble x - x\<bar> \<le> u / 2" by simp
  show ?thesis
  proof (cases "- 1022 \<le> binaryExponent a")
    case True
    then have e: "e = binaryExponent a" by (simp add: e_def)
    have "2 powr (real_of_int e) \<le> a"
      using binaryExponent_bounds[OF a] by (simp add: e)
    moreover have "2 powr (real_of_int e) = u * 2 ^ 52"
    proof -
      have p52: "(2::real) ^ 52 = 2 powr 52"
        by (rule powr_numeral[symmetric]) simp
      have "u * 2 ^ 52 = 2 powr (real_of_int (e - 52)) * 2 powr 52"
        by (simp only: u_def p52)
      also have "\<dots> = 2 powr (real_of_int (e - 52) + 52)"
        by (simp only: powr_add)
      also have "real_of_int (e - 52) + 52 = real_of_int e"
        by simp
      finally show ?thesis by simp
    qed
    ultimately have "u * 2 ^ 52 \<le> a" by simp
    then have "u / 2 \<le> a / 2 ^ 53" by simp
    then have "\<bar>roundDouble x - x\<bar> \<le> \<bar>x\<bar> / 2 ^ 53"
      using err by (simp add: a_def)
    then show ?thesis by (simp add: le_max_iff_disj)
  next
    case False
    then have e: "e = - 1022" by (simp add: e_def)
    have "u = 2 powr (- 1074)" by (simp add: u_def e)
    also have "\<dots> = 1 / 2 powr 1074" by (simp only: powr_minus_divide)
    also have "(2::real) powr 1074 = 2 ^ 1074" by (rule powr_numeral) simp
    finally have "u / 2 = 1 / 2 ^ 1075" by simp
    then have "\<bar>roundDouble x - x\<bar> \<le> 1 / 2 ^ 1075"
      using err by simp
    then show ?thesis by (simp only: le_max_iff_disj) simp
  qed
qed

lemma round_close: "\<bar>x\<bar> \<le> 2 \<Longrightarrow> \<bar>roundDouble x - x\<bar> \<le> 1 / 2 ^ 52"
proof -
  assume "\<bar>x\<bar> \<le> 2"
  then have "\<bar>x\<bar> / 2 ^ 53 \<le> 2 / 2 ^ 53" by (simp add: divide_right_mono)
  then have "\<bar>x\<bar> / 2 ^ 53 \<le> 1 / 2 ^ 52" by simp
  moreover have "(1::real) / 2 ^ 1075 \<le> 1 / 2 ^ 52" by simp
  ultimately have "max (\<bar>x\<bar> / 2 ^ 53) (1 / 2 ^ 1075) \<le> 1 / 2 ^ 52" by (rule max.boundedI)
  then show ?thesis using roundDouble_error[of x] by (rule order.trans[rotated])
qed

text \<open>A double is its own nearest double.\<close>

lemma roundHalfEven_of_int: "roundHalfEven (of_int n) = n"
  by (simp add: roundHalfEven_def)

lemma roundHalfEven_range:
  assumes "real_of_int lo \<le> r" "r \<le> real_of_int hi"
  shows "lo \<le> roundHalfEven r \<and> roundHalfEven r \<le> hi"
proof -
  have lo: "lo \<le> \<lfloor>r\<rfloor>" using assms(1) by (simp add: le_floor_iff)
  have hi: "\<lfloor>r\<rfloor> \<le> hi" using assms(2) by (simp add: floor_le_iff)
  have up: "\<lfloor>r\<rfloor> + 1 \<le> hi" if "0 < r - real_of_int \<lfloor>r\<rfloor>"
  proof -
    have "real_of_int \<lfloor>r\<rfloor> < real_of_int hi" using that assms(2) by linarith
    then show ?thesis by simp
  qed
  show ?thesis
    using lo hi up by (auto simp add: roundHalfEven_def Let_def)
qed

lemma double_step: "2 * 2 powr (real_of_int j) = 2 powr (real_of_int (j + 1))"
  by (simp add: powr_add)

lemma binaryExponent_unique:
  assumes "0 < x" "2 powr (real_of_int k) \<le> x" "x < 2 * 2 powr (real_of_int k)"
  shows "binaryExponent x = k"
proof -
  define e where "e = binaryExponent x"
  have b: "2 powr (real_of_int e) \<le> x" "x < 2 * 2 powr (real_of_int e)"
    using binaryExponent_bounds[OF assms(1)] by (simp_all add: e_def)
  have "\<not> k < e"
  proof
    assume "k < e"
    then have "real_of_int (k + 1) \<le> real_of_int e" by simp
    then have "2 powr (real_of_int (k + 1)) \<le> (2::real) powr (real_of_int e)"
      by (intro powr_mono) simp_all
    then show False using assms(3) b(1) double_step[of k] by linarith
  qed
  moreover have "\<not> e < k"
  proof
    assume "e < k"
    then have "real_of_int (e + 1) \<le> real_of_int k" by simp
    then have "2 powr (real_of_int (e + 1)) \<le> (2::real) powr (real_of_int k)"
      by (intro powr_mono) simp_all
    then show False using assms(2) b(2) double_step[of e] by linarith
  qed
  ultimately show ?thesis by (simp add: e_def)
qed

lemma scale_back: "2 powr (real_of_int (e - 52)) * 2 powr (real_of_int (52 - e)) = (1::real)"
  by (simp add: powr_add[symmetric])

lemma roundDouble_fixed:
  assumes r: "0 < r" and rep: "r = real_of_int n * 2 powr (real_of_int (e - 52))"
    and e: "max (binaryExponent r) (- 1022) = e"
  shows "roundDouble r = r"
proof -
  have "scaleBinary \<bar>r\<bar> (52 - e) = real_of_int n * (2 powr (real_of_int (e - 52))
      * 2 powr (real_of_int (52 - e)))"
    using r by (simp add: scaleBinary_powr rep)
  then have "scaleBinary \<bar>r\<bar> (52 - e) = real_of_int n"
    by (simp only: scale_back mult_1_right)
  then have n: "roundHalfEven (scaleBinary \<bar>r\<bar> (52 - e)) = n"
    by (simp add: roundHalfEven_of_int)
  have "roundDouble r
      = sgn r * scaleBinary (real_of_int (roundHalfEven (scaleBinary \<bar>r\<bar> (52 - e)))) (e - 52)"
    using r by (simp add: roundDouble_def Let_def e)
  also have "\<dots> = real_of_int n * 2 powr (real_of_int (e - 52))"
    using r by (simp only: n) (simp add: scaleBinary_powr)
  finally show ?thesis by (simp only: rep[symmetric])
qed

lemma two_powr_52: "(2::real) ^ 52 = 2 powr 52" "(2::real) ^ 53 = 2 powr 53"
  by (simp_all add: powr_numeral[symmetric])

lemma roundDouble_idem_pos:
  assumes a: "0 < a"
  shows "roundDouble (roundDouble a) = roundDouble a"
proof -
  define e where "e = max (binaryExponent a) (- 1022)"
  define u where "u = 2 powr (real_of_int (e - 52))"
  define m where "m = a * 2 powr (real_of_int (52 - e))"
  define n where "n = roundHalfEven m"
  define R where "R = real_of_int n * u"
  have u: "0 < u" by (simp add: u_def)
  have R: "roundDouble a = R"
    using a by (simp add: roundDouble_def Let_def e_def u_def m_def n_def R_def
        scaleBinary_powr abs_of_pos)
  have mu: "m * u = a"
    using scale_back[of e] by (simp add: m_def u_def mult.assoc mult.commute)
  have u52: "2 ^ 52 * u = 2 powr (real_of_int e)"
  proof -
    have "2 ^ 52 * u = 2 powr 52 * 2 powr (real_of_int (e - 52))"
      by (simp only: u_def two_powr_52)
    also have "\<dots> = 2 powr (52 + real_of_int (e - 52))"
      by (simp only: powr_add)
    also have "52 + real_of_int (e - 52) = real_of_int e" by simp
    finally show ?thesis by simp
  qed
  have bnd: "2 powr (real_of_int (binaryExponent a)) \<le> a"
    "a < 2 * 2 powr (real_of_int (binaryExponent a))"
    using binaryExponent_bounds[OF a] by simp_all
  have ge: "binaryExponent a \<le> e" by (simp add: e_def)
  have "2 powr (real_of_int (binaryExponent a)) \<le> (2::real) powr (real_of_int e)"
    using ge by (intro powr_mono) simp_all
  then have "a < 2 * (2 ^ 52 * u)" using bnd(2) u52 by linarith
  then have "m * u < 2 ^ 53 * u" using mu by simp
  then have m_hi: "m < 2 ^ 53" using u by simp
  have m_lo: "0 < m" using a by (simp add: m_def)
  have n_rng: "0 \<le> n \<and> n \<le> 2 ^ 53"
    unfolding n_def using m_lo m_hi by (intro roundHalfEven_range) simp_all
  show ?thesis
  proof (cases "n = 0")
    case True
    then have "R = 0" by (simp add: R_def)
    moreover have "roundDouble 0 = 0" by (simp add: roundDouble_def)
    ultimately show ?thesis unfolding R by simp
  next
    case False
    then have npos: "0 < n" using n_rng by simp
    then have Rpos: "0 < R" using u by (simp add: R_def)
    show ?thesis
    proof (cases "- 1022 \<le> binaryExponent a")
      case True
      then have e: "e = binaryExponent a" by (simp add: e_def)
      have "(2 ^ 52 * u) \<le> m * u" using bnd(1) u52 mu e by simp
      then have "2 ^ 52 \<le> m" using u by simp
      then have n_lo: "2 ^ 52 \<le> n"
        unfolding n_def using m_hi roundHalfEven_range[of "2 ^ 52" m "2 ^ 53"] by simp
      show ?thesis
      proof (cases "n = 2 ^ 53")
        case True
        have Rval: "R = 2 * 2 powr (real_of_int e)"
          using u52 by (simp add: R_def True)
        then have Rval': "R = 2 powr (real_of_int (e + 1))"
          by (simp only: double_step)
        have "binaryExponent R = e + 1"
          using Rpos by (intro binaryExponent_unique) (simp_all add: Rval')
        then have ex: "max (binaryExponent R) (- 1022) = e + 1"
          using \<open>- 1022 \<le> binaryExponent a\<close> e by simp
        have "2 powr (real_of_int (e + 1 - 52)) = 2 * u"
          using double_step[of "e - 52"] by (simp add: u_def add.commute)
        then have "R = real_of_int (2 ^ 52) * 2 powr (real_of_int (e + 1 - 52))"
          by (simp add: R_def True)
        then have "roundDouble R = R"
          using Rpos ex by (intro roundDouble_fixed[where n = "2 ^ 52" and e = "e + 1"])
        then show ?thesis unfolding R .
      next
        case False
        then have "n < 2 ^ 53" using n_rng by simp
        then have "real_of_int n < 2 ^ 53" by simp
        then have "R < 2 ^ 53 * u" using u by (simp add: R_def)
        then have hi: "R < 2 * 2 powr (real_of_int e)" using u52 by simp
        have "(2::real) ^ 52 \<le> real_of_int n" using n_lo by simp
        then have "2 ^ 52 * u \<le> R" using u by (simp add: R_def)
        then have lo: "2 powr (real_of_int e) \<le> R" using u52 by simp
        have "binaryExponent R = e"
          using Rpos lo hi by (rule binaryExponent_unique)
        then have ex: "max (binaryExponent R) (- 1022) = e"
          using \<open>- 1022 \<le> binaryExponent a\<close> e by simp
        have "roundDouble R = R"
          using Rpos _ ex by (rule roundDouble_fixed) (simp add: R_def u_def)
        then show ?thesis unfolding R .
      qed
    next
      case False
      then have e: "e = - 1022" by (simp add: e_def)
      have "real_of_int (binaryExponent a + 1) \<le> real_of_int e" using False e by simp
      then have "2 powr (real_of_int (binaryExponent a + 1)) \<le> (2::real) powr (real_of_int e)"
        by (intro powr_mono) simp_all
      then have "a < 2 powr (real_of_int e)"
        using bnd(2) double_step[of "binaryExponent a"] by linarith
      then have "m * u < 2 ^ 52 * u" using mu u52 by simp
      then have "m \<le> 2 ^ 52" using u by simp
      then have "n \<le> 2 ^ 52"
        unfolding n_def using m_lo roundHalfEven_range[of 0 m "2 ^ 52"] by simp
      then have "real_of_int n \<le> 2 ^ 52" by simp
      then have "R \<le> 2 ^ 52 * u" using u by (simp add: R_def)
      then have Rle: "R \<le> 2 powr (real_of_int e)" using u52 by simp
      have "2 powr (real_of_int (binaryExponent R)) \<le> R"
        using binaryExponent_bounds[OF Rpos] by simp
      then have "2 powr (real_of_int (binaryExponent R)) \<le> (2::real) powr (real_of_int e)"
        using Rle by linarith
      then have "real_of_int (binaryExponent R) \<le> real_of_int e"
        by simp
      then have ex: "max (binaryExponent R) (- 1022) = e"
        using e by simp
      have "roundDouble R = R"
        using Rpos _ ex by (rule roundDouble_fixed) (simp add: R_def u_def)
      then show ?thesis unfolding R .
    qed
  qed
qed

lemma roundDouble_abs: "roundDouble x = sgn x * roundDouble \<bar>x\<bar>"
  by (simp add: roundDouble_def Let_def)

lemma roundDouble_nonneg: "0 \<le> x \<Longrightarrow> 0 \<le> roundDouble x"
proof -
  assume x: "0 \<le> x"
  have "0 \<le> roundHalfEven (scaleBinary \<bar>x\<bar> (52 - e))" for e
    using roundHalfEven_range[of 0 "scaleBinary \<bar>x\<bar> (52 - e)" "\<lceil>scaleBinary \<bar>x\<bar> (52 - e)\<rceil>"]
    by (simp add: scaleBinary_powr)
  then show ?thesis
    using x by (simp add: roundDouble_def Let_def scaleBinary_powr sgn_if)
qed

lemma roundDouble_idem: "roundDouble (roundDouble x) = roundDouble x"
proof (cases "x = 0")
  case True
  then show ?thesis by (simp add: roundDouble_def)
next
  case False
  define R where "R = roundDouble \<bar>x\<bar>"
  have Rn: "0 \<le> R" unfolding R_def by (rule roundDouble_nonneg) simp
  have fixed: "roundDouble R = R"
    unfolding R_def using False by (intro roundDouble_idem_pos) simp
  have x: "roundDouble x = sgn x * R" unfolding R_def by (rule roundDouble_abs)
  have "roundDouble (sgn x * R) = sgn (sgn x * R) * roundDouble \<bar>sgn x * R\<bar>"
    by (rule roundDouble_abs)
  also have "\<bar>sgn x * R\<bar> = R" using False Rn by (simp add: abs_mult abs_sgn_eq)
  also have "sgn (sgn x * R) * roundDouble R = sgn x * R"
    using Rn fixed by (simp add: sgn_mult sgn_if)
  finally show ?thesis by (simp add: x)
qed

text \<open>The stored score stays within \<open>2\<^sup>-\<^sup>4\<^sup>6\<close> of the exact weighted sum when the signals
  are in the unit interval.\<close>

lemma round_lower:
  assumes "1 \<le> x"
  shows "7 / 8 * x \<le> roundDouble x"
proof -
  have "\<bar>x\<bar> / 2 ^ 53 \<le> x / 8" using assms by simp
  moreover have "(1::real) / 2 ^ 1075 \<le> x / 8" using assms by simp
  ultimately have "max (\<bar>x\<bar> / 2 ^ 53) (1 / 2 ^ 1075) \<le> x / 8" by (rule max.boundedI)
  then have "\<bar>roundDouble x - x\<bar> \<le> x / 8"
    using roundDouble_error[of x] by (rule order.trans[rotated])
  then show ?thesis by linarith
qed

lemma read_close:
  assumes "\<bar>s' - s\<bar> \<le> d" "0 \<le> s" "s \<le> 1" "d \<le> 1 / 2"
  shows "\<bar>roundDouble s' - s\<bar> \<le> d + 1 / 2 ^ 52"
proof -
  have "\<bar>s'\<bar> \<le> 2" using assms by linarith
  then have "\<bar>roundDouble s' - s'\<bar> \<le> 1 / 2 ^ 52" by (rule round_close)
  then show ?thesis using assms(1) by linarith
qed

lemma capped_ratio_close:
  assumes x: "0 \<le> x" and k: "1 \<le> k" "roundDouble k = k"
  shows "\<bar>min (fdiv x k) 1 - min (x / k) 1\<bar> \<le> 2 / 2 ^ 52"
proof (cases "x \<le> 3 / 2 * k")
  case True
  define x' where "x' = roundDouble x"
  have kpos: "0 < k" using k(1) by simp
  have "\<bar>x\<bar> / 2 ^ 53 \<le> k / 2 ^ 52" using True x by simp
  moreover have "(1::real) / 2 ^ 1075 \<le> 1 / 2 ^ 52" by simp
  then have "(1::real) / 2 ^ 1075 \<le> k / 2 ^ 52" using k(1) by (simp add: field_simps)
  ultimately have "max (\<bar>x\<bar> / 2 ^ 53) (1 / 2 ^ 1075) \<le> k / 2 ^ 52" by (rule max.boundedI)
  then have dx: "\<bar>x' - x\<bar> \<le> k / 2 ^ 52"
    unfolding x'_def using roundDouble_error[of x] by (rule order.trans[rotated])
  have "x' / k - x / k = (x' - x) / k" by (simp add: diff_divide_distrib)
  then have "\<bar>x' / k - x / k\<bar> = \<bar>x' - x\<bar> / k" using kpos by simp
  also have "\<dots> \<le> (k / 2 ^ 52) / k" using dx kpos by (simp add: divide_right_mono)
  also have "\<dots> = 1 / 2 ^ 52" using kpos by simp
  finally have dy: "\<bar>x' / k - x / k\<bar> \<le> 1 / 2 ^ 52" .
  have t: "0 \<le> x / k" "x / k \<le> 3 / 2" using True x kpos by (simp_all add: field_simps)
  have "(1::real) / 2 ^ 52 \<le> 1 / 2" by simp
  then have "\<bar>x' / k\<bar> \<le> 2" using dy t by linarith
  then have "\<bar>roundDouble (x' / k) - x' / k\<bar> \<le> 1 / 2 ^ 52" by (rule round_close)
  then have "\<bar>roundDouble (x' / k) - x / k\<bar> \<le> 2 / 2 ^ 52" using dy by linarith
  moreover have "\<bar>min (roundDouble (x' / k)) 1 - min (x / k) 1\<bar> \<le> \<bar>roundDouble (x' / k) - x / k\<bar>"
    by (simp add: min_def abs_if)
  ultimately show ?thesis by (simp add: fdiv_def k(2) x'_def)
next
  case False
  have kpos: "0 < k" using k(1) by simp
  have big: "3 / 2 < x / k" using False kpos by (simp add: field_simps)
  have "1 \<le> x" using False k(1) by linarith
  then have "7 / 8 * x \<le> roundDouble x" by (rule round_lower)
  then have "(7 / 8 * x) / k \<le> roundDouble x / k" using kpos by (intro divide_right_mono) simp_all
  moreover have "(7 / 8 * x) / k = 7 / 8 * (x / k)" by simp
  ultimately have q: "5 / 4 < roundDouble x / k" using big by linarith
  then have "1 \<le> roundDouble x / k" by linarith
  then have "7 / 8 * (roundDouble x / k) \<le> roundDouble (roundDouble x / k)"
    by (rule round_lower)
  then have "1 < roundDouble (roundDouble x / k)"
    using q by linarith
  then have "min (fdiv x k) 1 = 1" by (simp add: fdiv_def k(2) min_def)
  moreover have "1 \<le> x / k" using big by linarith
  then have "min (x / k) 1 = 1" by (rule min_absorb2)
  ultimately show ?thesis by simp
qed

lemma fmul_close:
  assumes s: "\<bar>s' - s\<bar> \<le> 3 / 2 ^ 52" "0 \<le> s" "s \<le> 1" and w: "0 \<le> w" "w \<le> 1"
  shows "\<bar>fmul s' w - s * w\<bar> \<le> 8 / 2 ^ 52"
proof -
  define sh where "sh = roundDouble s'"
  define wh where "wh = roundDouble w"
  define eps :: real where "eps = 1 / 2 ^ 52"
  have eps: "0 < eps" "eps \<le> 1 / 16" by (simp_all add: eps_def)
  have "\<bar>s' - s\<bar> \<le> 3 * eps" using s(1) by (simp add: eps_def)
  moreover have "3 * eps \<le> 1 / 2" using eps by linarith
  ultimately have "\<bar>roundDouble s' - s\<bar> \<le> 3 * eps + 1 / 2 ^ 52"
    using s(2,3) by (intro read_close)
  then have ds: "\<bar>sh - s\<bar> \<le> 4 * eps" by (simp add: sh_def eps_def)
  have dw: "\<bar>wh - w\<bar> \<le> eps"
    unfolding wh_def eps_def using w by (intro round_close) simp
  have shb: "\<bar>sh\<bar> \<le> 1 + 4 * eps" using ds s(2,3) by linarith
  have split: "sh * wh - s * w = sh * (wh - w) + w * (sh - s)"
    by (simp add: algebra_simps)
  have "\<bar>sh * (wh - w)\<bar> \<le> (1 + 4 * eps) * eps"
    unfolding abs_mult using shb dw by (intro mult_mono) simp_all
  moreover have "\<bar>w * (sh - s)\<bar> \<le> 1 * (4 * eps)"
    unfolding abs_mult using w ds by (intro mult_mono) simp_all
  moreover have "(1 + 4 * eps) * eps \<le> 2 * eps"
    using eps by (intro mult_right_mono) simp_all
  ultimately have prod: "\<bar>sh * wh - s * w\<bar> \<le> 6 * eps"
    unfolding split by linarith
  have "0 \<le> s * w" "s * w \<le> 1"
    using s(2,3) w by (simp_all add: mult_le_one)
  moreover have "\<bar>sh * wh\<bar> \<le> \<bar>sh * wh - s * w\<bar> + \<bar>s * w\<bar>"
    by (rule abs_triangle_ineq4[of "sh * wh - s * w" "- (s * w)", simplified])
  ultimately have "\<bar>sh * wh\<bar> \<le> 2" using prod eps by linarith
  then have "\<bar>roundDouble (sh * wh) - sh * wh\<bar> \<le> eps"
    unfolding eps_def by (rule round_close)
  then have "\<bar>roundDouble (sh * wh) - s * w\<bar> \<le> 8 * eps"
    using prod eps by linarith
  then show ?thesis by (simp add: fmul_def sh_def wh_def eps_def)
qed

lemma fadd_close:
  assumes "\<bar>a' - a\<bar> \<le> da" and "\<bar>b' - b\<bar> \<le> db" and "0 \<le> a" and "0 \<le> b"
    and "a + b \<le> 1" and "da + db \<le> 1 / 2"
  shows "\<bar>fadd a' b' - (a + b)\<bar> \<le> 3 / 2 ^ 52 + da + db"
proof -
  define eps :: real where "eps = 1 / 2 ^ 52"
  have eps: "0 < eps" "eps \<le> 1 / 16" by (simp_all add: eps_def)
  have ab: "\<bar>a'\<bar> \<le> 2" "\<bar>b'\<bar> \<le> 2" using assms by linarith+
  have r: "\<bar>roundDouble a' - a'\<bar> \<le> eps" "\<bar>roundDouble b' - b'\<bar> \<le> eps"
    unfolding eps_def by (rule round_close[OF ab(1)], rule round_close[OF ab(2)])
  have near: "\<bar>roundDouble a' + roundDouble b' - (a + b)\<bar> \<le> 2 * eps + da + db"
    using r assms(1,2) by linarith
  then have "\<bar>roundDouble a' + roundDouble b'\<bar> \<le> 2" using assms(3-6) eps by linarith
  then have "\<bar>roundDouble (roundDouble a' + roundDouble b') - (roundDouble a' + roundDouble b')\<bar>
      \<le> eps"
    unfolding eps_def by (rule round_close)
  then have "\<bar>fadd a' b' - (a + b)\<bar> \<le> 3 * eps + da + db"
    unfolding fadd_def using near by linarith
  then show ?thesis by (simp add: eps_def)
qed

lemma weighted_sum_close:
  assumes s1: "\<bar>s1' - s1\<bar> \<le> 3 / 2 ^ 52" "0 \<le> s1" "s1 \<le> 1"
    and s2: "\<bar>s2' - s2\<bar> \<le> 3 / 2 ^ 52" "0 \<le> s2" "s2 \<le> 1"
    and s3: "\<bar>s3' - s3\<bar> \<le> 3 / 2 ^ 52" "0 \<le> s3" "s3 \<le> 1"
    and s4: "\<bar>s4' - s4\<bar> \<le> 3 / 2 ^ 52" "0 \<le> s4" "s4 \<le> 1"
    and w: "0 \<le> w1" "0 \<le> w2" "0 \<le> w3" "0 \<le> w4" "w1 + w2 + w3 + w4 \<le> 1"
  shows "\<bar>fadd (fadd (fadd (fmul s1' w1) (fmul s2' w2)) (fmul s3' w3)) (fmul s4' w4)
          - (s1 * w1 + s2 * w2 + s3 * w3 + s4 * w4)\<bar> \<le> 1 / 2 ^ 46"
proof -
  have le: "w1 \<le> 1" "w2 \<le> 1" "w3 \<le> 1" "w4 \<le> 1" using w by linarith+
  note p1 = fmul_close[OF s1 w(1) le(1)]
  note p2 = fmul_close[OF s2 w(2) le(2)]
  note p3 = fmul_close[OF s3 w(3) le(3)]
  note p4 = fmul_close[OF s4 w(4) le(4)]
  have t1: "0 \<le> s1 * w1" "s1 * w1 \<le> w1"
    using s1 w(1) by (simp_all add: mult_left_le_one_le)
  have t2: "0 \<le> s2 * w2" "s2 * w2 \<le> w2"
    using s2 w(2) by (simp_all add: mult_left_le_one_le)
  have t3: "0 \<le> s3 * w3" "s3 * w3 \<le> w3"
    using s3 w(3) by (simp_all add: mult_left_le_one_le)
  have t4: "0 \<le> s4 * w4" "s4 * w4 \<le> w4"
    using s4 w(4) by (simp_all add: mult_left_le_one_le)
  have small: "8 / 2 ^ 52 + 8 / 2 ^ 52 \<le> (1::real) / 2"
    "3 / 2 ^ 52 + 8 / 2 ^ 52 + 8 / 2 ^ 52 + 8 / 2 ^ 52 \<le> (1::real) / 2"
    "3 / 2 ^ 52 + (3 / 2 ^ 52 + 8 / 2 ^ 52 + 8 / 2 ^ 52) + 8 / 2 ^ 52 + 8 / 2 ^ 52 \<le> (1::real) / 2"
    by simp_all
  have r12: "0 \<le> s1 * w1 + s2 * w2" "s1 * w1 + s2 * w2 \<le> 1"
    using t1 t2 w by linarith+
  have r123: "0 \<le> s1 * w1 + s2 * w2 + s3 * w3" "s1 * w1 + s2 * w2 + s3 * w3 \<le> 1"
    using t1 t2 t3 w by linarith+
  have r1234: "s1 * w1 + s2 * w2 + s3 * w3 + s4 * w4 \<le> 1"
    using t1 t2 t3 t4 w by linarith
  note a12 = fadd_close[OF p1 p2 t1(1) t2(1) r12(2) small(1)]
  note a123 = fadd_close[OF a12 p3 r12(1) t3(1) r123(2) small(2)]
  note a1234 = fadd_close[OF a123 p4 r123(1) t4(1) r1234 small(3)]
  have "3 / 2 ^ 52 + (3 / 2 ^ 52 + (3 / 2 ^ 52 + 8 / 2 ^ 52 + 8 / 2 ^ 52) + 8 / 2 ^ 52) + 8 / 2 ^ 52
      \<le> (1::real) / 2 ^ 46"
    by simp
  then show ?thesis using a1234 by linarith
qed

lemma double_small_integers: "roundDouble 3 = 3" "roundDouble 5000 = 5000"
  by (simp_all add: double_eval)

lemma two_ulp: "(2::real) / 2 ^ 52 \<le> 3 / 2 ^ 52"
  by simp

lemma multiPlatformDouble_close:
  "\<bar>multiPlatformDouble c - multiPlatform c\<bar> \<le> 3 / 2 ^ 52"
proof -
  have "\<bar>min (fdiv (real (length (sources c))) 3) 1 - min (real (length (sources c)) / 3) 1\<bar>
      \<le> 2 / 2 ^ 52"
    by (rule capped_ratio_close) (simp_all add: double_small_integers)
  then show ?thesis
    unfolding multiPlatformDouble_def multiPlatform_def using two_ulp by (rule order.trans)
qed

lemma engagementDouble_close:
  assumes "0 \<le> reddit_comments c"
  shows "\<bar>engagementDouble c - engagementScore c\<bar> \<le> 3 / 2 ^ 52"
proof -
  have "\<bar>min (fdiv (reddit_comments c) 5000) 1 - min (reddit_comments c / 5000) 1\<bar>
      \<le> 2 / 2 ^ 52"
    using assms by (intro capped_ratio_close) (simp_all add: double_small_integers)
  then show ?thesis
    unfolding engagementDouble_def engagementScore_def using two_ulp by (rule order.trans)
qed

lemma exact_close: "\<bar>s - s\<bar> \<le> (3::real) / 2 ^ 52"
  by simp

lemma divisivenessDouble_close:
  assumes "0 \<le> reddit_divisiveness c" "reddit_divisiveness c \<le> 1"
    "0 \<le> youtube_divisiveness c" "youtube_divisiveness c \<le> 1"
    "0 \<le> google_score c" "google_score c \<le> 1"
  shows "\<bar>divisivenessDouble c - divisivenessComposite c\<bar> \<le> 1 / 2 ^ 46"
proof -
  have mp: "0 \<le> multiPlatform c" "multiPlatform c \<le> 1"
    using multiPlatform_range[of c] by simp_all
  have w: "(0::real) \<le> 0.45" "(0::real) \<le> 0.25" "(0::real) \<le> 0.15" "(0::real) \<le> 0.15"
    "(0.45::real) + 0.25 + 0.15 + 0.15 \<le> 1"
    by simp_all
  show ?thesis
    unfolding divisivenessDouble_def divisivenessComposite_def
    by (rule weighted_sum_close[OF exact_close assms(1,2) exact_close assms(3,4)
          exact_close assms(5,6) multiPlatformDouble_close mp w])
qed

lemma mainstreamDouble_close:
  assumes "0 \<le> reddit_divisiveness c" "reddit_divisiveness c \<le> 1"
    "0 \<le> reddit_comments c"
    "0 \<le> google_score c" "google_score c \<le> 1"
  shows "\<bar>mainstreamDouble c - mainstreamComposite c\<bar> \<le> 1 / 2 ^ 46"
proof -
  have mp: "0 \<le> multiPlatform c" "multiPlatform c \<le> 1"
    using multiPlatform_range[of c] by simp_all
  have en: "0 \<le> engagementScore c" "engagementScore c \<le> 1"
    using assms(3) by (simp_all add: engagementScore_def)
  have w: "(0::real) \<le> 0.35" "(0::real) \<le> 0.25" "(0::real) \<le> 0.20" "(0::real) \<le> 0.20"
    "(0.35::real) + 0.25 + 0.20 + 0.20 \<le> 1"
    by simp_all
  show ?thesis
    unfolding mainstreamDouble_def mainstreamComposite_def
    by (rule weighted_sum_close[OF engagementDouble_close[OF assms(3)] en
          exact_close assms(4,5) multiPlatformDouble_close mp exact_close assms(1,2) w])
qed

text \<open>The ranking of a pool.\<close>

lemma rankedCandidates_ordered:
  "\<exists>ys. rankedCandidates f candidates = take 20 ys
     \<and> mset (map merged.truncate ys) = mset (Map_values candidates)
     \<and> (\<forall>c\<in>set ys. composite_score c = f (merged.truncate c))
     \<and> sorted_wrt (\<lambda>a b. composite_score b \<le> composite_score a) ys
     \<and> (\<forall>k. map merged.truncate (filter (\<lambda>c. composite_score c = k) ys)
            = filter (\<lambda>c. f c = k) (Map_values candidates))"
  unfolding rankedCandidates_def by (rule rankTop_scoredValues)

lemma divisivenessDouble_truncate:
  fixes c :: ranked
  assumes "distinct (sources c)"
  shows "divisivenessDouble (merged.truncate c)
    = fadd (fadd (fadd (fmul (reddit_divisiveness c) 0.45)
                       (fmul (youtube_divisiveness c) 0.25))
                 (fmul (google_score c) 0.15))
           (fmul (min (fdiv (real (card (set (sources c)))) 3) 1) 0.15)"
  using assms
  by (simp add: divisivenessDouble_def multiPlatformDouble_def truncate_fields distinct_card)

lemma mainstreamDouble_truncate:
  fixes c :: ranked
  assumes "distinct (sources c)"
  shows "mainstreamDouble (merged.truncate c)
    = fadd (fadd (fadd (fmul (min (fdiv (reddit_comments c) 5000) 1) 0.35)
                       (fmul (google_score c) 0.25))
                 (fmul (min (fdiv (real (card (set (sources c)))) 3) 1) 0.20))
           (fmul (reddit_divisiveness c) 0.20)"
  using assms
  by (simp add: mainstreamDouble_def multiPlatformDouble_def engagementDouble_def
      truncate_fields distinct_card)

lemma divisiveness_ranking:
  "\<exists>ys. rankedCandidates divisivenessDouble candidates = take 20 ys
      \<and> mset (map merged.truncate ys) = mset (Map_values candidates)
      \<and> (\<forall>c\<in>set ys. distinct (sources c) \<longrightarrow> composite_score c
            = fadd (fadd (fadd (fmul (reddit_divisiveness c) 0.45)
                               (fmul (youtube_divisiveness c) 0.25))
                         (fmul (google_score c) 0.15))
                   (fmul (min (fdiv (real (card (set (sources c)))) 3) 1) 0.15))
      \<and> (\<forall>c\<in>set ys. distinct (sources c)
              \<and> 0 \<le> reddit_divisiveness c \<and> reddit_divisiveness c \<le> 1
              \<and> 0 \<le> youtube_divisiveness c \<and> youtube_divisiveness c \<le> 1
              \<and> 0 \<le> google_score c \<and> google_score c \<le> 1
            \<longrightarrow> \<bar>composite_score c
                 - (0.45 * reddit_divisiveness c + 0.25 * youtube_divisiveness c
                    + 0.15 * google_score c
                    + 0.15 * min (real (card (set (sources c))) / 3) 1)\<bar> \<le> 1 / 2 ^ 46)
      \<and> sorted_wrt (\<lambda>a b. composite_score b \<le> composite_score a) ys
      \<and> (\<forall>k. map merged.truncate (filter (\<lambda>c. composite_score c = k) ys)
             = filter (\<lambda>c. divisivenessDouble c = k) (Map_values candidates))"
proof -
  from rankedCandidates_ordered[of divisivenessDouble candidates] obtain ys where ys:
    "rankedCandidates divisivenessDouble candidates = take 20 ys"
    "mset (map merged.truncate ys) = mset (Map_values candidates)"
    "\<forall>c\<in>set ys. composite_score c = divisivenessDouble (merged.truncate c)"
    "sorted_wrt (\<lambda>a b. composite_score b \<le> composite_score a) ys"
    "\<forall>k. map merged.truncate (filter (\<lambda>c. composite_score c = k) ys)
       = filter (\<lambda>c. divisivenessDouble c = k) (Map_values candidates)"
    by blast
  have formula: "\<forall>c\<in>set ys. distinct (sources c) \<longrightarrow> composite_score c
      = fadd (fadd (fadd (fmul (reddit_divisiveness c) 0.45)
                         (fmul (youtube_divisiveness c) 0.25))
                   (fmul (google_score c) 0.15))
             (fmul (min (fdiv (real (card (set (sources c)))) 3) 1) 0.15)"
    using ys(3) divisivenessDouble_truncate by simp
  have close: "\<bar>composite_score c
        - (0.45 * reddit_divisiveness c + 0.25 * youtube_divisiveness c
           + 0.15 * google_score c
           + 0.15 * min (real (card (set (sources c))) / 3) 1)\<bar> \<le> 1 / 2 ^ 46"
    if c: "c \<in> set ys" and d: "distinct (sources c)"
      and r: "0 \<le> reddit_divisiveness c" "reddit_divisiveness c \<le> 1"
        "0 \<le> youtube_divisiveness c" "youtube_divisiveness c \<le> 1"
        "0 \<le> google_score c" "google_score c \<le> 1"
    for c
  proof -
    have "\<bar>divisivenessDouble (merged.truncate c) - divisivenessComposite (merged.truncate c)\<bar>
        \<le> 1 / 2 ^ 46"
      using r by (intro divisivenessDouble_close) (simp_all add: truncate_fields)
    moreover have "divisivenessComposite (merged.truncate c)
        = 0.45 * reddit_divisiveness c + 0.25 * youtube_divisiveness c
          + 0.15 * google_score c + 0.15 * min (real (card (set (sources c))) / 3) 1"
      using d by (simp add: divisivenessComposite_def multiPlatform_def truncate_fields
          distinct_card)
    ultimately show ?thesis using ys(3) c by simp
  qed
  show ?thesis
    using ys(1,2,4,5) formula close by blast
qed

lemma mainstream_ranking:
  "\<exists>ys. rankedCandidates mainstreamDouble candidates = take 20 ys
      \<and> mset (map merged.truncate ys) = mset (Map_values candidates)
      \<and> (\<forall>c\<in>set ys. distinct (sources c) \<longrightarrow> composite_score c
            = fadd (fadd (fadd (fmul (min (fdiv (reddit_comments c) 5000) 1) 0.35)
                               (fmul (google_score c) 0.25))
                         (fmul (min (fdiv (real (card (set (sources c)))) 3) 1) 0.20))
                   (fmul (reddit_divisiveness c) 0.20))
      \<and> (\<forall>c\<in>set ys. distinct (sources c)
              \<and> 0 \<le> reddit_divisiveness c \<and> reddit_divisiveness c \<le> 1
              \<and> 0 \<le> reddit_comments c
              \<and> 0 \<le> google_score c \<and> google_score c \<le> 1
            \<longrightarrow> \<bar>composite_score c
                 - (0.35 * min (reddit_comments c / 5000) 1 + 0.25 * google_score c
                    + 0.20 * min (real (card (set (sources c))) / 3) 1
                    + 0.20 * reddit_divisiveness c)\<bar> \<le> 1 / 2 ^ 46)
      \<and> sorted_wrt (\<lambda>a b. composite_score b \<le> composite_score a) ys
      \<and> (\<forall>k. map merged.truncate (filter (\<lambda>c. composite_score c = k) ys)
             = filter (\<lambda>c. mainstreamDouble c = k) (Map_values candidates))"
proof -
  from rankedCandidates_ordered[of mainstreamDouble candidates] obtain ys where ys:
    "rankedCandidates mainstreamDouble candidates = take 20 ys"
    "mset (map merged.truncate ys) = mset (Map_values candidates)"
    "\<forall>c\<in>set ys. composite_score c = mainstreamDouble (merged.truncate c)"
    "sorted_wrt (\<lambda>a b. composite_score b \<le> composite_score a) ys"
    "\<forall>k. map merged.truncate (filter (\<lambda>c. composite_score c = k) ys)
       = filter (\<lambda>c. mainstreamDouble c = k) (Map_values candidates)"
    by blast
  have formula: "\<forall>c\<in>set ys. distinct (sources c) \<longrightarrow> composite_score c
      = fadd (fadd (fadd (fmul (min (fdiv (reddit_comments c) 5000) 1) 0.35)
                         (fmul (google_score c) 0.25))
                   (fmul (min (fdiv (real (card (set (sources c)))) 3) 1) 0.20))
             (fmul (reddit_divisiveness c) 0.20)"
    using ys(3) mainstreamDouble_truncate by simp
  have close: "\<bar>composite_score c
        - (0.35 * min (reddit_comments c / 5000) 1 + 0.25 * google_score c
           + 0.20 * min (real (card (set (sources c))) / 3) 1
           + 0.20 * reddit_divisiveness c)\<bar> \<le> 1 / 2 ^ 46"
    if c: "c \<in> set ys" and d: "distinct (sources c)"
      and r: "0 \<le> reddit_divisiveness c" "reddit_divisiveness c \<le> 1"
        "0 \<le> reddit_comments c" "0 \<le> google_score c" "google_score c \<le> 1"
    for c
  proof -
    have "\<bar>mainstreamDouble (merged.truncate c) - mainstreamComposite (merged.truncate c)\<bar>
        \<le> 1 / 2 ^ 46"
      using r by (intro mainstreamDouble_close) (simp_all add: truncate_fields)
    moreover have "mainstreamComposite (merged.truncate c)
        = 0.35 * min (reddit_comments c / 5000) 1 + 0.25 * google_score c
          + 0.20 * min (real (card (set (sources c))) / 3) 1 + 0.20 * reddit_divisiveness c"
      using d by (simp add: mainstreamComposite_def multiPlatform_def engagementScore_def
          truncate_fields distinct_card)
    ultimately show ?thesis using ys(3) c by simp
  qed
  show ?thesis
    using ys(1,2,4,5) formula close by blast
qed

text \<open>Two runs in which the exact weighted sums of the two candidates are equal (13/80 in
  the first selector, 61/600 in the second) and the stored scores are not: the engine
  ranks the later candidate first.\<close>

lemma double_order_pool:
  "mergePool [] [\<lparr>title = ''Alpha'', score = 75\<rparr>]
     [\<lparr>title = ''Other'', divisiveness_score = 45/100\<rparr>]
   = [(''alpha'',
       \<lparr>title = ''Alpha'', reddit_divisiveness = 0, reddit_comments = 0,
        reddit_subreddits = [], google_score = 3/4, youtube_divisiveness = 0,
        sources = [''google_trends'']\<rparr>),
      (''other'',
       \<lparr>title = ''Other'', reddit_divisiveness = 0, reddit_comments = 0,
        reddit_subreddits = [], google_score = 0, youtube_divisiveness = 9/20,
        sources = [''youtube'']\<rparr>)]"
  by (simp add: merge_eval)

lemma double_order_example:
  "rankedCandidates divisivenessDouble
     (mergePool [] [\<lparr>title = ''Alpha'', score = 75\<rparr>]
        [\<lparr>title = ''Other'', divisiveness_score = 45/100\<rparr>])
   = [\<lparr>title = ''Other'', reddit_divisiveness = 0, reddit_comments = 0,
       reddit_subreddits = [], google_score = 0, youtube_divisiveness = 9/20,
       sources = [''youtube''], composite_score = 5854679515581645 / 36028797018963968\<rparr>,
      \<lparr>title = ''Alpha'', reddit_divisiveness = 0, reddit_comments = 0,
       reddit_subreddits = [], google_score = 3/4, youtube_divisiveness = 0,
       sources = [''google_trends''], composite_score = 5854679515581644 / 36028797018963968\<rparr>]"
  unfolding double_order_pool by (simp add: ranker_eval)

lemma double_order_pool_mainstream:
  "mergePool [\<lparr>title = ''Alpha'', divisiveness_score = 0, total_comments = 500,
        subreddits = []\<rparr>]
     [\<lparr>title = ''Other'', score = 14\<rparr>] []
   = [(''alpha'',
       \<lparr>title = ''Alpha'', reddit_divisiveness = 0, reddit_comments = 500,
        reddit_subreddits = [], google_score = 0, youtube_divisiveness = 0,
        sources = [''reddit'']\<rparr>),
      (''other'',
       \<lparr>title = ''Other'', reddit_divisiveness = 0, reddit_comments = 0,
        reddit_subreddits = [], google_score = 7/50, youtube_divisiveness = 0,
        sources = [''google_trends'']\<rparr>)]"
  by (simp add: merge_eval)

lemma double_order_example_mainstream:
  "rankedCandidates mainstreamDouble
     (mergePool [\<lparr>title = ''Alpha'', divisiveness_score = 0, total_comments = 500,
          subreddits = []\<rparr>]
        [\<lparr>title = ''Other'', score = 14\<rparr>] [])
   = [\<lparr>title = ''Other'', reddit_divisiveness = 0, reddit_comments = 0,
       reddit_subreddits = [], google_score = 7/50, youtube_divisiveness = 0,
       sources = [''google_trends''],
       composite_score = 7325855393856007 / 72057594037927936\<rparr>,
      \<lparr>title = ''Alpha'', reddit_divisiveness = 0, reddit_comments = 500,
       reddit_subreddits = [], google_score = 0, youtube_divisiveness = 0,
       sources = [''reddit''], composite_score = 7325855393856006 / 72057594037927936\<rparr>]"
  unfolding double_order_pool_mainstream by (simp add: ranker_eval)

text \<open>
  Claim C1. For every candidate pool, the ranker of either topic selector returns the first
  20 of a list \<open>ys\<close> that holds the candidates of the pool, each once and with its composite
  score, in descending order of the stored score; candidates of equal stored score keep the
  order of the pool. For a candidate whose sources are listed once each, the stored score
  is the double-precision value of the weighted sum with the weights written in the code:
  0.45 Reddit divisiveness + 0.25 YouTube divisiveness + 0.15 Google score + 0.15 presence
  in the first selector, and 0.35 engagement + 0.25 Google score + 0.20 presence
  + 0.20 Reddit divisiveness in the second, where presence is
  \<open>min(|contributing sources| / 3, 1)\<close> and engagement is \<open>min(comments / 5000, 1)\<close>. With
  the signals in the unit interval (and a nonnegative comment count) the stored score
  differs from the exact weighted sum by at most \<open>2\<^sup>-\<^sup>4\<^sup>6\<close>.
\<close>

theorem composite_ranking:
  "(\<exists>ys. rankedCandidates divisivenessDouble candidates = take 20 ys
      \<and> mset (map merged.truncate ys) = mset (Map_values candidates)
      \<and> (\<forall>c\<in>set ys. distinct (sources c) \<longrightarrow> composite_score c
            = fadd (fadd (fadd (fmul (reddit_divisiveness c) 0.45)
                               (fmul (youtube_divisiveness c) 0.25))
                         (fmul (google_score c) 0.15))
                   (fmul (min (fdiv (real (card (set (sources c)))) 3) 1) 0.15))
      \<and> (\<forall>c\<in>set ys. distinct (sources c)
              \<and> 0 \<le> reddit_divisiveness c \<and> reddit_divisiveness c \<le> 1
              \<and> 0 \<le> youtube_divisiveness c \<and> youtube_divisiveness c \<le> 1
              \<and> 0 \<le> google_score c \<and> google_score c \<le> 1
            \<longrightarrow> \<bar>composite_score c
                 - (0.45 * reddit_divisiveness c + 0.25 * youtube_divisiveness c
                    + 0.15 * google_score c
                    + 0.15 * min (real (card (set (sources c))) / 3) 1)\<bar> \<le> 1 / 2 ^ 46)
      \<and> sorted_wrt (\<lambda>a b. composite_score b \<le> composite_score a) ys
      \<and> (\<forall>k. map merged.truncate (filter (\<lambda>c. composite_score c = k) ys)
             = filter (\<lambda>c. divisivenessDouble c = k) (Map_values candidates)))
   \<and> (\<exists>ys. rankedCandidates mainstreamDouble candidates = take 20 ys
      \<and> mset (map merged.truncate ys) = mset (Map_values candidates)
      \<and> (\<forall>c\<in>set ys. distinct (sources c) \<longrightarrow> composite_score c
            = fadd (fadd (fadd (fmul (min (fdiv (reddit_comments c) 5000) 1) 0.35)
                               (fmul (google_score c) 0.25))
                         (fmul (min (fdiv (real (card (set (sources c)))) 3) 1) 0.20))
                   (fmul (reddit_divisiveness c) 0.20))
      \<and> (\<forall>c\<in>set ys. distinct (sources c)
              \<and> 0 \<le> reddit_divisiveness c \<and> reddit_divisiveness c \<le> 1
              \<and> 0 \<le> reddit_comments c
              \<and> 0 \<le> google_score c \<and> google_score c \<le> 1
            \<longrightarrow> \<bar>composite_score c
                 - (0.35 * min (reddit_comments c / 5000) 1 + 0.25 * google_score c
                    + 0.20 * min (real (card (set (sources c))) / 3) 1
                    + 0.20 * reddit_divisiveness c)\<bar> \<le> 1 / 2 ^ 46)
      \<and> sorted_wrt (\<lambda>a b. composite_score b \<le> composite_score a) ys
      \<and> (\<forall>k. map merged.truncate (filter (\<lambda>c. composite_score c = k) ys)
             = filter (\<lambda>c. mainstreamDouble c = k) (Map_values candidates)))"
  using divisiveness_ranking[of candidates] mainstream_ranking[of candidates]
  by (rule conjI)

theorem composite_ranking_witness:
  "map title (rankedCandidates divisivenessDouble
     (mergePool [] [\<lparr>title = ''Alpha'', score = 75\<rparr>]
        [\<lparr>title = ''Other'', divisiveness_score = 45/100\<rparr>]))
     = [''Other'', ''Alpha'']
   \<and> map composite_score (rankedCandidates divisivenessDouble
     (mergePool [] [\<lparr>title = ''Alpha'', score = 75\<rparr>]
        [\<lparr>title = ''Other'', divisiveness_score = 45/100\<rparr>]))
     = [5854679515581645 / 36028797018963968, 5854679515581644 / 36028797018963968]
   \<and> \<bar>5854679515581645 / 36028797018963968 - (0.25 * 0.45 + 0.15 * (1 / 3))\<bar>
       \<le> (1::real) / 2 ^ 46
   \<and> (5854679515581644::real) / 36028797018963968 \<le> 5854679515581645 / 36028797018963968
   \<and> map title (rankedCandidates mainstreamDouble
     (mergePool [\<lparr>title = ''Alpha'', divisiveness_score = 0, total_comments = 500,
          subreddits = []\<rparr>]
        [\<lparr>title = ''Other'', score = 14\<rparr>] []))
     = [''Other'', ''Alpha'']
   \<and> map composite_score (rankedCandidates mainstreamDouble
     (mergePool [\<lparr>title = ''Alpha'', divisiveness_score = 0, total_comments = 500,
          subreddits = []\<rparr>]
        [\<lparr>title = ''Other'', score = 14\<rparr>] []))
     = [7325855393856007 / 72057594037927936, 7325855393856006 / 72057594037927936]
   \<and> \<bar>7325855393856006 / 72057594037927936 - (0.35 * (500 / 5000) + 0.20 * (1 / 3))\<bar>
       \<le> (1::real) / 2 ^ 46
   \<and> (7325855393856006::real) / 72057594037927936 \<le> 7325855393856007 / 72057594037927936"
proof -
  let ?pool = "mergePool [] [\<lparr>title = ''Alpha'', score = 75\<rparr>]
        [\<lparr>title = ''Other'', divisiveness_score = 45/100\<rparr>]"
  let ?first = "\<lparr>title = ''Other'', reddit_divisiveness = 0, reddit_comments = 0,
       reddit_subreddits = [], google_score = 0, youtube_divisiveness = 9/20,
       sources = [''youtube''], composite_score = 5854679515581645 / 36028797018963968\<rparr>"
  let ?second = "\<lparr>title = ''Alpha'', reddit_divisiveness = 0, reddit_comments = 0,
       reddit_subreddits = [], google_score = 3/4, youtube_divisiveness = 0,
       sources = [''google_trends''], composite_score = 5854679515581644 / 36028797018963968\<rparr>"
  have out: "rankedCandidates divisivenessDouble ?pool = [?first, ?second]"
    by (rule double_order_example)
  from composite_ranking[of ?pool, THEN conjunct1] obtain ys where ys:
    "rankedCandidates divisivenessDouble ?pool = take 20 ys"
    "mset (map merged.truncate ys) = mset (Map_values ?pool)"
    "\<forall>c\<in>set ys. distinct (sources c)
        \<and> 0 \<le> reddit_divisiveness c \<and> reddit_divisiveness c \<le> 1
        \<and> 0 \<le> youtube_divisiveness c \<and> youtube_divisiveness c \<le> 1
        \<and> 0 \<le> google_score c \<and> google_score c \<le> 1
      \<longrightarrow> \<bar>composite_score c
           - (0.45 * reddit_divisiveness c + 0.25 * youtube_divisiveness c
              + 0.15 * google_score c
              + 0.15 * min (real (card (set (sources c))) / 3) 1)\<bar> \<le> 1 / 2 ^ 46"
    "sorted_wrt (\<lambda>a b. composite_score b \<le> composite_score a) ys"
    by blast
  have "length (map merged.truncate ys) = length (Map_values ?pool)"
    using ys(2) by (rule mset_eq_length)
  then have "length ys = 2"
    unfolding double_order_pool by (simp add: Map_values_def)
  then have eq: "ys = [?first, ?second]"
    using ys(1) out by simp
  then have "?first \<in> set ys"
    by simp
  then have close: "\<bar>5854679515581645 / 36028797018963968 - (0.25 * 0.45 + 0.15 * (1 / 3))\<bar>
       \<le> (1::real) / 2 ^ 46"
    using ys(3) by simp
  have order: "(5854679515581644::real) / 36028797018963968 \<le> 5854679515581645 / 36028797018963968"
    using ys(4) unfolding eq by simp
  let ?pool' = "mergePool [\<lparr>title = ''Alpha'', divisiveness_score = 0, total_comments = 500,
          subreddits = []\<rparr>]
        [\<lparr>title = ''Other'', score = 14\<rparr>] []"
  let ?first' = "\<lparr>title = ''Other'', reddit_divisiveness = 0, reddit_comments = 0,
       reddit_subreddits = [], google_score = 7/50, youtube_divisiveness = 0,
       sources = [''google_trends''],
       composite_score = 7325855393856007 / 72057594037927936\<rparr>"
  let ?second' = "\<lparr>title = ''Alpha'', reddit_divisiveness = 0, reddit_comments = 500,
       reddit_subreddits = [], google_score = 0, youtube_divisiveness = 0,
       sources = [''reddit''], composite_score = 7325855393856006 / 72057594037927936\<rparr>"
  have out': "rankedCandidates mainstreamDouble ?pool' = [?first', ?second']"
    by (rule double_order_example_mainstream)
  from composite_ranking[of ?pool', THEN conjunct2] obtain zs where zs:
    "rankedCandidates mainstreamDouble ?pool' = take 20 zs"
    "mset (map merged.truncate zs) = mset (Map_values ?pool')"
    "\<forall>c\<in>set zs. distinct (sources c)
        \<and> 0 \<le> reddit_divisiveness c \<and> reddit_divisiveness c \<le> 1
        \<and> 0 \<le> reddit_comments c
        \<and> 0 \<le> google_score c \<and> google_score c \<le> 1
      \<longrightarrow> \<bar>composite_score c
           - (0.35 * min (reddit_comments c / 5000) 1 + 0.25 * google_score c
              + 0.20 * min (real (card (set (sources c))) / 3) 1
              + 0.20 * reddit_divisiveness c)\<bar> \<le> 1 / 2 ^ 46"
    "sorted_wrt (\<lambda>a b. composite_score b \<le> composite_score a) zs"
    by blast
  have "length (map merged.truncate zs) = length (Map_values ?pool')"
    using zs(2) by (rule mset_eq_length)
  then have "length zs = 2"
    unfolding double_order_pool_mainstream by (simp add: Map_values_def)
  then have eq': "zs = [?first', ?second']"
    using zs(1) out' by simp
  then have "?second' \<in> set zs"
    by simp
  then have close': "\<bar>7325855393856006 / 72057594037927936 - (0.35 * (500 / 5000) + 0.20 * (1 / 3))\<bar>
       \<le> (1::real) / 2 ^ 46"
    using zs(3) by simp
  have order': "(7325855393856006::real) / 72057594037927936 \<le> 7325855393856007 / 72057594037927936"
    using zs(4) unfolding eq' by simp
  show ?thesis
    using out close order out' close' order' by simp
qed

text \<open>The claim as the specification words it fails in the second topic selector: two
  candidates with the same Reddit divisiveness, YouTube divisiveness, Google score and
  number of sources get different composite scores, so no weights \<open>w1..w4\<close> give the
  composite as a weighted sum of those four signals.\<close>

theorem mainstream_composite_counterexample:
  "mergeSignals_mainstream
     [\<lparr>title = ''Immigration Enforcement Debate'', divisiveness_score = 1/2,
       total_comments = 5000, subreddits = []\<rparr>,
      \<lparr>title = ''Minimum Wage Increase'', divisiveness_score = 1/2,
       total_comments = 0, subreddits = []\<rparr>] [] []
   = [\<lparr>title = ''Immigration Enforcement Debate'', reddit_divisiveness = 1/2,
       reddit_comments = 5000, reddit_subreddits = [], google_score = 0,
       youtube_divisiveness = 0, sources = [''reddit''], composite_score = 31/60\<rparr>,
      \<lparr>title = ''Minimum Wage Increase'', reddit_divisiveness = 1/2,
       reddit_comments = 0, reddit_subreddits = [], google_score = 0,
       youtube_divisiveness = 0, sources = [''reddit''], composite_score = 1/6\<rparr>]"
proof -
  have pool: "mergePool
     [\<lparr>title = ''Immigration Enforcement Debate'', divisiveness_score = 1/2,
       total_comments = 5000, subreddits = []\<rparr>,
      \<lparr>title = ''Minimum Wage Increase'', divisiveness_score = 1/2,
       total_comments = 0, subreddits = []\<rparr>] [] []
    = [(''immigration enforcement debate'',
        \<lparr>title = ''Immigration Enforcement Debate'', reddit_divisiveness = 1/2,
         reddit_comments = 5000, reddit_subreddits = [], google_score = 0,
         youtube_divisiveness = 0, sources = [''reddit'']\<rparr>),
       (''minimum wage increase'',
        \<lparr>title = ''Minimum Wage Increase'', reddit_divisiveness = 1/2,
         reddit_comments = 0, reddit_subreddits = [], google_score = 0,
         youtube_divisiveness = 0, sources = [''reddit'']\<rparr>)]"
    by (simp add: merge_eval)
  show ?thesis
    unfolding mergeSignals_mainstream_def pool
    by (simp add: rank_eval)
qed

text \<open>The stored scores of that run, which differ in the same way.\<close>

lemma mainstream_double_scores:
  "map composite_score (rankedCandidates mainstreamDouble (mergePool
     [\<lparr>title = ''Immigration Enforcement Debate'', divisiveness_score = 1/2,
       total_comments = 5000, subreddits = []\<rparr>,
      \<lparr>title = ''Minimum Wage Increase'', divisiveness_score = 1/2,
       total_comments = 0, subreddits = []\<rparr>] [] []))
   = [581714951868689 / 1125899906842624, 3002399751580331 / 18014398509481984]"
proof -
  have pool: "mergePool
     [\<lparr>title = ''Immigration Enforcement Debate'', divisiveness_score = 1/2,
       total_comments = 5000, subreddits = []\<rparr>,
      \<lparr>title = ''Minimum Wage Increase'', divisiveness_score = 1/2,
       total_comments = 0, subreddits = []\<rparr>] [] []
    = [(''immigration enforcement debate'',
        \<lparr>title = ''Immigration Enforcement Debate'', reddit_divisiveness = 1/2,
         reddit_comments = 5000, reddit_subreddits = [], google_score = 0,
         youtube_divisiveness = 0, sources = [''reddit'']\<rparr>),
       (''minimum wage increase'',
        \<lparr>title = ''Minimum Wage Increase'', reddit_divisiveness = 1/2,
         reddit_comments = 0, reddit_subreddits = [], google_score = 0,
         youtube_divisiveness = 0, sources = [''reddit'']\<rparr>)]"
    by (simp add: merge_eval)
  show ?thesis
    unfolding pool by (simp add: ranker_eval)
qed

subsection \<open>The signal merger\<close>

text \<open>The keys of the pool stay distinct: one stored object per normalized key.\<close>

lemma Map_set_keys:
  "map fst (Map_set k v m) = (if k \<in> set (map fst m) then map fst m else map fst m @ [k])"
  by (induction m) force+

lemma Map_modify_keys: "map fst (Map_modify k f m) = map fst m"
  by (induction m) auto

lemma addReddit_distinct: "distinct (map fst m) \<Longrightarrow> distinct (map fst (addReddit m r))"
  by (simp add: addReddit_def Map_set_keys)

lemma mergeGoogle_distinct: "distinct (map fst m) \<Longrightarrow> distinct (map fst (mergeGoogle m g))"
  by (simp add: mergeGoogle_def Map_set_keys Map_modify_keys Let_def split: option.splits prod.splits)

lemma mergeYoutube_distinct: "distinct (map fst m) \<Longrightarrow> distinct (map fst (mergeYoutube m y))"
  by (simp add: mergeYoutube_def Map_set_keys Map_modify_keys Let_def split: option.splits prod.splits)

lemma foldl_distinct:
  assumes "\<And>m x. distinct (map fst m) \<Longrightarrow> distinct (map fst (step m x))"
    and "distinct (map fst m)"
  shows "distinct (map fst (foldl step m xs))"
  using assms(2) by (induction xs arbitrary: m) (simp_all add: assms(1))

lemma mergePool_keys_distinct: "distinct (map fst (mergePool r g y))"
  unfolding mergePool_def
  by (intro foldl_distinct mergeYoutube_distinct mergeGoogle_distinct addReddit_distinct) simp_all

lemma Map_set_key_set: "fst ` set (Map_set k v m) = insert k (fst ` set m)"
proof -
  have "set (map fst (Map_set k v m)) = insert k (set (map fst m))"
    unfolding Map_set_keys by (cases "k \<in> set (map fst m)") auto
  then show ?thesis by (simp only: set_map)
qed

lemma Map_modify_key_set: "fst ` set (Map_modify k f m) = fst ` set m"
proof -
  have "set (map fst (Map_modify k f m)) = set (map fst m)"
    by (simp only: Map_modify_keys)
  then show ?thesis by (simp only: set_map)
qed

lemma sourceTags_Map_set_new:
  "k \<notin> fst ` set m \<Longrightarrow> sourceTags (Map_set k v m) = sourceTags m + length (sources v)"
  by (induction m) (auto simp add: sourceTags_def)

lemma sourceTags_Map_modify:
  assumes "k \<in> fst ` set m" and "\<And>c. length (sources (f c)) = Suc (length (sources c))"
  shows "sourceTags (Map_modify k f m) = Suc (sourceTags m)"
  using assms(1)
proof (induction m)
  case Nil
  then show ?case by simp
next
  case (Cons e m)
  show ?case
  proof (cases "fst e = k")
    case True
    then show ?thesis
      by (cases e) (simp add: sourceTags_def assms(2))
  next
    case False
    then have "k \<in> fst ` set m" using Cons.prems by auto
    then have "sourceTags (Map_modify k f m) = Suc (sourceTags m)" by (rule Cons.IH)
    then show ?thesis
      using False by (cases e) (simp add: sourceTags_def)
  qed
qed

lemma findBestMatch_key_in_pool:
  assumes "findBestMatch key m = Some (k, v)"
  shows "k \<in> fst ` set m"
proof -
  from findBestMatch_Some[OF assms] obtain pre post where "m = pre @ (k, v) # post"
    by blast
  then show ?thesis by force
qed

lemma addReddit_key_set:
  "fst ` set (addReddit m r) \<subseteq> insert (normalizeTitle (title r)) (fst ` set m)"
  by (simp add: addReddit_def Map_set_key_set)

lemma mergeGoogle_key_set:
  "fst ` set (mergeGoogle m g) \<subseteq> insert (normalizeTitle (title g)) (fst ` set m)"
proof (cases "findBestMatch (normalizeTitle (title g)) m")
  case None
  then show ?thesis by (simp add: mergeGoogle_def Map_set_key_set)
next
  case (Some e)
  then show ?thesis
    by (cases e) (simp add: mergeGoogle_def Map_modify_key_set subset_insertI)
qed

lemma mergeYoutube_key_set:
  "fst ` set (mergeYoutube m y) \<subseteq> insert (normalizeTitle (title y)) (fst ` set m)"
proof (cases "findBestMatch (normalizeTitle (title y)) m")
  case None
  then show ?thesis by (simp add: mergeYoutube_def Map_set_key_set)
next
  case (Some e)
  then show ?thesis
    by (cases e) (simp add: mergeYoutube_def Map_modify_key_set subset_insertI)
qed

lemma addReddit_tags:
  "normalizeTitle (title r) \<notin> fst ` set m \<Longrightarrow> sourceTags (addReddit m r) = Suc (sourceTags m)"
  by (simp add: addReddit_def sourceTags_Map_set_new)

lemma mergeGoogle_tags:
  assumes "normalizeTitle (title g) \<notin> fst ` set m"
  shows "sourceTags (mergeGoogle m g) = Suc (sourceTags m)"
proof (cases "findBestMatch (normalizeTitle (title g)) m")
  case None
  then show ?thesis using assms by (simp add: mergeGoogle_def sourceTags_Map_set_new)
next
  case (Some e)
  obtain k v where e: "e = (k, v)" by (cases e)
  have "k \<in> fst ` set m" by (rule findBestMatch_key_in_pool[OF Some[unfolded e]])
  then show ?thesis using Some e by (simp add: mergeGoogle_def sourceTags_Map_modify)
qed

lemma mergeYoutube_tags:
  assumes "normalizeTitle (title y) \<notin> fst ` set m"
  shows "sourceTags (mergeYoutube m y) = Suc (sourceTags m)"
proof (cases "findBestMatch (normalizeTitle (title y)) m")
  case None
  then show ?thesis using assms by (simp add: mergeYoutube_def sourceTags_Map_set_new)
next
  case (Some e)
  obtain k v where e: "e = (k, v)" by (cases e)
  have "k \<in> fst ` set m" by (rule findBestMatch_key_in_pool[OF Some[unfolded e]])
  then show ?thesis using Some e by (simp add: mergeYoutube_def sourceTags_Map_modify)
qed

lemma disjoint_after_step:
  "A \<subseteq> insert a B \<Longrightarrow> a \<notin> K \<Longrightarrow> K \<inter> B = {} \<Longrightarrow> K \<inter> A = {}"
  by blast

lemma keys_after_step:
  "F \<subseteq> K \<union> A \<Longrightarrow> A \<subseteq> insert a B \<Longrightarrow> F \<subseteq> insert a K \<union> B"
  by blast

lemma foldl_tags:
  assumes step_keys: "\<And>m x. fst ` set (step m x) \<subseteq> insert (key x) (fst ` set m)"
    and step_tags: "\<And>m x. key x \<notin> fst ` set m \<Longrightarrow> sourceTags (step m x) = Suc (sourceTags m)"
    and "distinct (map key xs)" and "key ` set xs \<inter> fst ` set m = {}"
  shows "sourceTags (foldl step m xs) = sourceTags m + length xs
       \<and> fst ` set (foldl step m xs) \<subseteq> key ` set xs \<union> fst ` set m"
  using assms(3,4)
proof (induction xs arbitrary: m)
  case Nil
  then show ?case by simp
next
  case (Cons x xs)
  have fresh: "key x \<notin> fst ` set m"
    using Cons.prems(2) by simp
  have others: "key ` set xs \<inter> fst ` set m = {}"
    using Cons.prems(2) by simp
  have later: "key x \<notin> key ` set xs" and rest: "distinct (map key xs)"
    using Cons.prems(1) by simp_all
  have keys: "fst ` set (step m x) \<subseteq> insert (key x) (fst ` set m)"
    by (rule step_keys)
  have apart: "key ` set xs \<inter> fst ` set (step m x) = {}"
    using keys later others by (rule disjoint_after_step)
  have ih: "sourceTags (foldl step (step m x) xs) = sourceTags (step m x) + length xs
      \<and> fst ` set (foldl step (step m x) xs) \<subseteq> key ` set xs \<union> fst ` set (step m x)"
    using rest apart by (rule Cons.IH)
  have count: "sourceTags (foldl step m (x # xs)) = sourceTags m + length (x # xs)"
    using ih step_tags[OF fresh] by simp
  have "fst ` set (foldl step (step m x) xs) \<subseteq> insert (key x) (key ` set xs) \<union> fst ` set m"
    using conjunct2[OF ih] keys by (rule keys_after_step)
  then have inside: "fst ` set (foldl step m (x # xs)) \<subseteq> key ` set (x # xs) \<union> fst ` set m"
    by simp
  show ?case using count inside by (rule conjI)
qed

text \<open>When the normalized titles of all candidates are pairwise different, no call of
  \<^verbatim>\<open>candidates.set\<close> meets a present key, and the pool holds one source entry per
  candidate.\<close>

lemma distinct_keys_no_candidate_lost:
  assumes "distinct (map (\<lambda>c. normalizeTitle (title c)) r
      @ map (\<lambda>c. normalizeTitle (title c)) g @ map (\<lambda>c. normalizeTitle (title c)) y)"
  shows "sourceTags (mergePool r g y) = length r + length g + length y"
proof -
  let ?kr = "\<lambda>c::reddit_candidate. normalizeTitle (title c)"
  let ?kg = "\<lambda>c::google_trend. normalizeTitle (title c)"
  let ?ky = "\<lambda>c::scored_candidate. normalizeTitle (title c)"
  let ?p1 = "foldl addReddit [] r"
  let ?p2 = "foldl mergeGoogle ?p1 g"
  have d: "distinct (map ?kr r)" "distinct (map ?kg g)" "distinct (map ?ky y)"
    "?kr ` set r \<inter> ?kg ` set g = {}" "?kr ` set r \<inter> ?ky ` set y = {}"
    "?kg ` set g \<inter> ?ky ` set y = {}"
    using assms by auto
  have empty: "?kr ` set r \<inter> fst ` set ([] :: merged js_map) = {}"
    by simp
  note one = foldl_tags[where step = addReddit and key = ?kr,
      OF addReddit_key_set addReddit_tags d(1) empty]
  have keys1: "fst ` set ?p1 \<subseteq> ?kr ` set r"
    using one by simp
  have apart1: "?kg ` set g \<inter> fst ` set ?p1 = {}"
    using keys1 d(4) by blast
  note two = foldl_tags[where step = mergeGoogle and key = ?kg,
      OF mergeGoogle_key_set mergeGoogle_tags d(2) apart1]
  have keys2: "fst ` set ?p2 \<subseteq> ?kg ` set g \<union> ?kr ` set r"
    using two keys1 by blast
  have apart2: "?ky ` set y \<inter> fst ` set ?p2 = {}"
    using keys2 d(5,6) by blast
  note three = foldl_tags[where step = mergeYoutube and key = ?ky,
      OF mergeYoutube_key_set mergeYoutube_tags d(3) apart2]
  have "sourceTags ?p1 = length r"
    using one by (simp add: sourceTags_def)
  moreover have "sourceTags ?p2 = sourceTags ?p1 + length g"
    using two by (rule conjunct1)
  moreover have "sourceTags (foldl mergeYoutube ?p2 y) = sourceTags ?p2 + length y"
    using three by (rule conjunct1)
  ultimately show ?thesis
    by (simp add: mergePool_def)
qed

text \<open>
  Claim C4. Folding the same candidate twice for the same source should count the source
  once. The code folds a Google trend twice into one cluster and lists \<open>google_trends\<close>
  twice in \<open>sources\<close>; the cross-platform term of the composite rises from 1/3 to 2/3 and
  the composite from 37/200 to 47/200. The slot \<open>google_score\<close> is the same after both folds.
  The same Reddit cluster folded twice gives the pool of one fold.
\<close>

theorem repeated_source_counted_twice:
  "mergePool [] [\<lparr>title = ''Immigration Reform'', score = 90\<rparr>] []
     = [(''immigration reform'',
         \<lparr>title = ''Immigration Reform'', reddit_divisiveness = 0, reddit_comments = 0,
          reddit_subreddits = [], google_score = 9/10, youtube_divisiveness = 0,
          sources = [''google_trends'']\<rparr>)]
   \<and> mergePool []
       [\<lparr>title = ''Immigration Reform'', score = 90\<rparr>,
        \<lparr>title = ''Immigration Reform'', score = 90\<rparr>] []
     = [(''immigration reform'',
         \<lparr>title = ''Immigration Reform'', reddit_divisiveness = 0, reddit_comments = 0,
          reddit_subreddits = [], google_score = 9/10, youtube_divisiveness = 0,
          sources = [''google_trends'', ''google_trends'']\<rparr>)]
   \<and> map composite_score (mergeSignals [] [\<lparr>title = ''Immigration Reform'', score = 90\<rparr>] [])
     = [37/200]
   \<and> map composite_score (mergeSignals []
       [\<lparr>title = ''Immigration Reform'', score = 90\<rparr>,
        \<lparr>title = ''Immigration Reform'', score = 90\<rparr>] [])
     = [47/200]
   \<and> mergePool
       [\<lparr>title = ''Immigration Reform'', divisiveness_score = 4/5, total_comments = 1000,
         subreddits = [''politics'']\<rparr>,
        \<lparr>title = ''Immigration Reform'', divisiveness_score = 4/5, total_comments = 1000,
         subreddits = [''politics'']\<rparr>] [] []
     = mergePool
       [\<lparr>title = ''Immigration Reform'', divisiveness_score = 4/5, total_comments = 1000,
         subreddits = [''politics'']\<rparr>] [] []"
proof -
  have reddit: "mergePool
       [\<lparr>title = ''Immigration Reform'', divisiveness_score = 4/5, total_comments = 1000,
         subreddits = [''politics'']\<rparr>,
        \<lparr>title = ''Immigration Reform'', divisiveness_score = 4/5, total_comments = 1000,
         subreddits = [''politics'']\<rparr>] [] []
     = mergePool
       [\<lparr>title = ''Immigration Reform'', divisiveness_score = 4/5, total_comments = 1000,
         subreddits = [''politics'']\<rparr>] [] []"
    by (simp add: merge_eval)
  have once: "mergePool [] [\<lparr>title = ''Immigration Reform'', score = 90\<rparr>] []
     = [(''immigration reform'',
         \<lparr>title = ''Immigration Reform'', reddit_divisiveness = 0, reddit_comments = 0,
          reddit_subreddits = [], google_score = 9/10, youtube_divisiveness = 0,
          sources = [''google_trends'']\<rparr>)]"
    by (simp add: merge_eval)
  have twice: "mergePool []
       [\<lparr>title = ''Immigration Reform'', score = 90\<rparr>,
        \<lparr>title = ''Immigration Reform'', score = 90\<rparr>] []
     = [(''immigration reform'',
         \<lparr>title = ''Immigration Reform'', reddit_divisiveness = 0, reddit_comments = 0,
          reddit_subreddits = [], google_score = 9/10, youtube_divisiveness = 0,
          sources = [''google_trends'', ''google_trends'']\<rparr>)]"
    by (simp add: merge_eval)
  have score_once: "map composite_score
      (mergeSignals [] [\<lparr>title = ''Immigration Reform'', score = 90\<rparr>] []) = [37/200]"
    unfolding mergeSignals_def once by (simp add: rank_eval)
  have score_twice: "map composite_score (mergeSignals []
       [\<lparr>title = ''Immigration Reform'', score = 90\<rparr>,
        \<lparr>title = ''Immigration Reform'', score = 90\<rparr>] []) = [47/200]"
    unfolding mergeSignals_def twice by (simp add: rank_eval)
  show ?thesis
    using once twice score_once score_twice reddit by (intro conjI)
qed

text \<open>
  Claim C6. Every candidate handed to the merger should appear in one cluster. The code
  stores a candidate under its normalized key with \<^verbatim>\<open>candidates.set\<close>: the Reddit loop
  without a search, the other loops when the search finds no match. A key without a word
  longer than 3 characters matches nothing, itself included, so a second candidate with
  the same key replaces the first. Of two Reddit clusters \<open>Gun Ban\<close> and \<open>Gun ban?\<close> only
  the second is in the pool; a Reddit cluster \<open>Gun Ban\<close> followed by the trend \<open>gun ban\<close>
  leaves a cluster with no Reddit data and \<open>google_trends\<close> as its only source. In both
  runs two candidates were handed over and the pool holds one source entry.
\<close>

theorem same_key_candidate_overwritten:
  "mergePool
     [\<lparr>title = ''Gun Ban'', divisiveness_score = 4/5, total_comments = 1000,
       subreddits = [''politics'']\<rparr>,
      \<lparr>title = ''Gun ban?'', divisiveness_score = 3/10, total_comments = 20,
       subreddits = [''news'']\<rparr>] [] []
     = [(''gun ban'',
         \<lparr>title = ''Gun ban?'', reddit_divisiveness = 3/10, reddit_comments = 20,
          reddit_subreddits = [''news''], google_score = 0, youtube_divisiveness = 0,
          sources = [''reddit'']\<rparr>)]
   \<and> mergePool
     [\<lparr>title = ''Gun Ban'', divisiveness_score = 4/5, total_comments = 1000,
       subreddits = [''politics'']\<rparr>]
     [\<lparr>title = ''gun ban'', score = 50\<rparr>] []
     = [(''gun ban'',
         \<lparr>title = ''gun ban'', reddit_divisiveness = 0, reddit_comments = 0,
          reddit_subreddits = [], google_score = 1/2, youtube_divisiveness = 0,
          sources = [''google_trends'']\<rparr>)]
   \<and> sourceTags (mergePool
     [\<lparr>title = ''Gun Ban'', divisiveness_score = 4/5, total_comments = 1000,
       subreddits = [''politics'']\<rparr>,
      \<lparr>title = ''Gun ban?'', divisiveness_score = 3/10, total_comments = 20,
       subreddits = [''news'']\<rparr>] [] []) = 1
   \<and> sourceTags (mergePool
     [\<lparr>title = ''Gun Ban'', divisiveness_score = 4/5, total_comments = 1000,
       subreddits = [''politics'']\<rparr>]
     [\<lparr>title = ''gun ban'', score = 50\<rparr>] []) = 1"
  by (simp add: merge_eval sourceTags_def)


subsection \<open>Empty input\<close>

text \<open>
  Claim C5. With all three source lists empty, score, merge and rank return the empty
  ranked sequence, in both topic selectors. The model of \<^verbatim>\<open>mergeSignals\<close> has no error
  value because the function has no \<^verbatim>\<open>throw\<close>; the \<^verbatim>\<open>throw\<close> on an empty list is in its
  caller \<^verbatim>\<open>selectTopic\<close>.
\<close>

theorem mergeSignals_empty:
  "mergeSignals [] [] [] = [] \<and> mergeSignals_mainstream [] [] [] = []"
  by (simp add: mergeSignals_def mergeSignals_mainstream_def mergePool_def scoredValues_def
      Map_values_def rankTop_def)

text \<open>The caller turns the empty ranking into an error: the decision that an empty ranking
  is fatal is taken outside the ranker.\<close>

lemma selectTopic_empty:
  "selectTopic False ai [] [] [] = Inl NoTopicCandidates"
  by (simp add: selectTopic_def mergeSignals_def mergePool_def scoredValues_def Map_values_def rankTop_def)

end
